theory Spec2Isabelle
  imports Main "HOL-Library.Multiset"
begin

section \<open>Python strings\<close>

text \<open>
  A Python \<open>str\<close> is modelled as a \<open>string\<close> whose characters are code points below 256
  (Latin-1, which holds the umlauts of the keywords: U+00FC is \<open>CHR 0xFC\<close>). Code points
  from 256 on are outside the model. \<open>str.lower\<close> keeps a Latin-1 string inside Latin-1:
  it adds 32 to A..Z and to U+00C0..U+00DE except the multiplication sign U+00D7.
\<close>

definition lower_char :: "char \<Rightarrow> char" where
  "lower_char c = (let n = (of_char c :: nat) in
     if (65 \<le> n \<and> n \<le> 90) \<or> (192 \<le> n \<and> n \<le> 222 \<and> n \<noteq> 215)
     then char_of (n + 32) else c)"

definition py_lower :: "string \<Rightarrow> string" where
  "py_lower s = map lower_char s"

text \<open>\<open>sub in s\<close>: \<open>sub\<close> occurs in \<open>s\<close> as a contiguous run.\<close>

fun py_in :: "string \<Rightarrow> string \<Rightarrow> bool" where
  "py_in sub [] = (sub = [])"
| "py_in sub (c # cs) = (take (length sub) (c # cs) = sub \<or> py_in sub cs)"

text \<open>
  \<open>s.replace(old, new)\<close>: the occurrences of \<open>old\<close> are found from the left and do not
  overlap. The source only replaces non-empty patterns; for an empty \<open>old\<close> the model
  leaves \<open>s\<close> as it is.
\<close>

fun py_replace :: "string \<Rightarrow> string \<Rightarrow> string \<Rightarrow> string" where
  "py_replace old new [] = []"
| "py_replace old new (c # cs) =
     (if old \<noteq> [] \<and> take (length old) (c # cs) = old
      then new @ py_replace old new (drop (length old - 1) cs)
      else c # py_replace old new cs)"

text \<open>The white space of \<open>str.strip()\<close> among the code points below 256.\<close>

definition py_isspace :: "char \<Rightarrow> bool" where
  "py_isspace c \<longleftrightarrow> c \<in> set [CHR 0x09, CHR 0x0A, CHR 0x0B, CHR 0x0C, CHR 0x0D,
     CHR 0x1C, CHR 0x1D, CHR 0x1E, CHR 0x1F, CHR 0x20, CHR 0x85, CHR 0xA0]"

definition py_strip :: "string \<Rightarrow> string" where
  "py_strip s = rev (dropWhile py_isspace (rev (dropWhile py_isspace s)))"

text \<open>\<open>s.count(c)\<close> and \<open>s.index(c)\<close> for a single character; \<open>index\<close> raises
  ValueError when \<open>c\<close> does not occur, which is \<open>None\<close> here.\<close>

definition py_count :: "string \<Rightarrow> char \<Rightarrow> nat" where
  "py_count s c = length (filter (\<lambda>x. x = c) s)"

definition py_index :: "string \<Rightarrow> char \<Rightarrow> nat option" where
  "py_index s c = (if c \<in> set s then Some (length (takeWhile (\<lambda>x. x \<noteq> c) s)) else None)"

fun py_split :: "char \<Rightarrow> string \<Rightarrow> string list" where
  "py_split c [] = [[]]"
| "py_split c (x # xs) =
     (if x = c then [] # py_split c xs
      else (case py_split c xs of p # ps \<Rightarrow> (x # p) # ps | [] \<Rightarrow> [[x]]))"

section \<open>Python's \<open>decimal.Decimal\<close> under the default context\<close>

text \<open>
  A \<open>Decimal\<close> is a sign, a coefficient and an exponent (\<open>Finite s c e\<close> is
  \<open>(-1)^s * c * 10^e\<close>, and \<open>Decimal('1.50')\<close> is \<open>Finite False 150 (-2)\<close>), an infinity, or
  a NaN (\<open>NaN True\<close> is the signalling one; sign and payload of a NaN are not kept, nothing
  in the program reads them). The program never changes the context, so arithmetic
  rounds to 28 significant digits, half to even, with exponents between -999999 and
  999999, and the signals InvalidOperation and Overflow raise.
\<close>

datatype decimal = Finite bool nat int | Infinity bool | NaN bool

datatype error = InvalidOperation | Overflow | ValueError | AttributeError | KeyError

definition prec :: nat where "prec = 28"
definition Emax :: int where "Emax = 999999"
definition Emin :: int where "Emin = - 999999"
definition Etiny :: int where "Etiny = Emin - int prec + 1"
definition Etop :: int where "Etop = Emax - int prec + 1"

text \<open>The number of decimal digits of a coefficient (\<open>len(self._int)\<close>; one digit for 0).\<close>

fun ndigits :: "nat \<Rightarrow> nat" where
  "ndigits n = (if n < 10 then 1 else Suc (ndigits (n div 10)))"

declare ndigits.simps [simp del]

text \<open>
  \<open>Decimal._fix\<close>: fit a finite result into the context. A zero keeps its exponent inside
  the range. A result above \<open>Emax\<close> raises Overflow. A coefficient of more than \<open>prec\<close>
  digits (or an exponent below \<open>Etiny\<close>) is cut at \<open>exp_min\<close> and rounded half to even;
  when the rounding carries into a further digit the last digit is dropped.
\<close>

definition dec_fix :: "bool \<Rightarrow> nat \<Rightarrow> int \<Rightarrow> error + decimal" where
  "dec_fix s c e =
    (if c = 0 then Inr (Finite s 0 (min (max e Etiny) Emax))
     else
       let exp_min = int (ndigits c) + e - int prec in
       if exp_min > Etop then Inl Overflow
       else
         let exp_min = max exp_min Etiny in
         if e < exp_min then
           (let p = 10 ^ nat (exp_min - e);
                q = c div p;
                r = c mod p;
                q1 = (if 2 * r > p \<or> (2 * r = p \<and> odd q) then q + 1 else q);
                carry = (ndigits q1 > prec);
                q2 = (if carry then q1 div 10 else q1);
                e2 = (if carry then exp_min + 1 else exp_min)
            in if e2 > Etop then Inl Overflow else Inr (Finite s q2 e2))
         else Inr (Finite s c e))"

text \<open>The signed coefficient of a finite number at a lower exponent \<open>e\<close>.\<close>

definition scaled :: "int \<Rightarrow> bool \<Rightarrow> nat \<Rightarrow> int \<Rightarrow> int" where
  "scaled e s c e1 = (if s then - 1 else 1) * int c * 10 ^ nat (e1 - e)"

text \<open>
  \<open>Decimal.__add__\<close>: a signalling NaN raises, a quiet NaN is the result, opposite
  infinities raise; two finite numbers are added exactly at the smaller exponent and
  the sum goes through \<open>_fix\<close>. A zero sum is negative only when both operands are
  negative zeros.
\<close>

fun dec_add :: "decimal \<Rightarrow> decimal \<Rightarrow> error + decimal" where
  "dec_add (NaN True) b = Inl InvalidOperation"
| "dec_add a (NaN True) = Inl InvalidOperation"
| "dec_add (NaN False) b = Inr (NaN False)"
| "dec_add a (NaN False) = Inr (NaN False)"
| "dec_add (Infinity s1) (Infinity s2) =
     (if s1 \<noteq> s2 then Inl InvalidOperation else Inr (Infinity s1))"
| "dec_add (Infinity s1) (Finite s2 c2 e2) = Inr (Infinity s1)"
| "dec_add (Finite s1 c1 e1) (Infinity s2) = Inr (Infinity s2)"
| "dec_add (Finite s1 c1 e1) (Finite s2 c2 e2) =
     (let e = min e1 e2;
          n = scaled e s1 c1 e1 + scaled e s2 c2 e2
      in if n = 0 then dec_fix (c1 = 0 \<and> c2 = 0 \<and> s1 \<and> s2) 0 e
         else dec_fix (n < 0) (nat \<bar>n\<bar>) e)"

fun copy_negate :: "decimal \<Rightarrow> decimal" where
  "copy_negate (Finite s c e) = Finite (\<not> s) c e"
| "copy_negate (Infinity s) = Infinity (\<not> s)"
| "copy_negate (NaN g) = NaN g"

text \<open>\<open>Decimal.__sub__\<close> adds the negated operand.\<close>

definition dec_sub :: "decimal \<Rightarrow> decimal \<Rightarrow> error + decimal" where
  "dec_sub a b = dec_add a (copy_negate b)"

text \<open>\<open>abs(d)\<close>: the sign is cleared and the result goes through \<open>_fix\<close>.\<close>

fun dec_abs :: "decimal \<Rightarrow> error + decimal" where
  "dec_abs (NaN True) = Inl InvalidOperation"
| "dec_abs (NaN False) = Inr (NaN False)"
| "dec_abs (Infinity s) = Inr (Infinity False)"
| "dec_abs (Finite s c e) = dec_fix False c e"

text \<open>\<open>a < b\<close>: an ordering comparison with a NaN raises; otherwise the values are
  compared, with the infinities below and above every finite number.\<close>

fun dec_lt :: "decimal \<Rightarrow> decimal \<Rightarrow> error + bool" where
  "dec_lt (NaN g) b = Inl InvalidOperation"
| "dec_lt a (NaN g) = Inl InvalidOperation"
| "dec_lt (Infinity s1) (Infinity s2) = Inr (s1 \<and> \<not> s2)"
| "dec_lt (Infinity s1) (Finite s2 c2 e2) = Inr s1"
| "dec_lt (Finite s1 c1 e1) (Infinity s2) = Inr (\<not> s2)"
| "dec_lt (Finite s1 c1 e1) (Finite s2 c2 e2) =
     (let e = min e1 e2 in Inr (scaled e s1 c1 e1 < scaled e s2 c2 e2))"

subsection \<open>The constructor \<open>Decimal(str)\<close>\<close>

text \<open>
  The constructor strips white space, drops every underscore and accepts, in any letter
  case: an optional sign, then digits with an optional point and an optional exponent
  (at least one digit before the point or right after it), or \<open>Inf\<close>, \<open>Infinity\<close>,
  \<open>NaN\<close> or \<open>sNaN\<close> with optional payload digits. The value is exact, whatever the
  context. Everything else raises InvalidOperation, which is \<open>None\<close> here.
\<close>

definition is_digit :: "char \<Rightarrow> bool" where
  "is_digit c \<longleftrightarrow> c \<in> set ''0123456789''"

definition digit_val :: "char \<Rightarrow> nat" where
  "digit_val c = of_char c - 48"

definition nat_of_digits :: "string \<Rightarrow> nat" where
  "nat_of_digits ds = foldl (\<lambda>a c. 10 * a + digit_val c) 0 ds"

definition split_sign :: "string \<Rightarrow> bool \<times> string" where
  "split_sign s = (case s of
       c # t \<Rightarrow> if c = CHR ''-'' then (True, t) else if c = CHR ''+'' then (False, t) else (False, s)
     | [] \<Rightarrow> (False, []))"

definition parse_exponent :: "string \<Rightarrow> int option" where
  "parse_exponent r = (case r of
       [] \<Rightarrow> Some 0
     | c # t \<Rightarrow>
         if c = CHR ''e'' \<or> c = CHR ''E'' then
           (let (neg, ds) = split_sign t in
            if ds \<noteq> [] \<and> list_all is_digit ds
            then Some ((if neg then - 1 else 1) * int (nat_of_digits ds)) else None)
         else None)"

definition parse_number :: "string \<Rightarrow> (nat \<times> int) option" where
  "parse_number r =
    (let ip = takeWhile is_digit r;
         r1 = dropWhile is_digit r;
         (fp, r2) = (case r1 of
              c # t \<Rightarrow> if c = CHR ''.'' then (takeWhile is_digit t, dropWhile is_digit t) else ([], r1)
            | [] \<Rightarrow> ([], []))
     in if ip = [] \<and> fp = [] then None
        else (case parse_exponent r2 of
                None \<Rightarrow> None
              | Some x \<Rightarrow> Some (nat_of_digits (ip @ fp), x - int (length fp))))"

definition nan_form :: "string \<Rightarrow> string \<Rightarrow> bool" where
  "nan_form p l \<longleftrightarrow> take (length p) l = p \<and> list_all is_digit (drop (length p) l)"

definition py_Decimal :: "string \<Rightarrow> decimal option" where
  "py_Decimal s =
    (let (neg, r) = split_sign (filter (\<lambda>c. c \<noteq> CHR ''_'') (py_strip s));
         l = py_lower r
     in if l = ''inf'' \<or> l = ''infinity'' then Some (Infinity neg)
        else if nan_form ''nan'' l then Some (NaN False)
        else if nan_form ''snan'' l then Some (NaN True)
        else (case parse_number r of
                None \<Rightarrow> None
              | Some (c, e) \<Rightarrow> Some (Finite neg c e)))"

section \<open>\<open>parse_german_amount\<close> (analyze_kontoauszuege_v7.py and v8.py, lines 23 to 76)\<close>

text \<open>
  The argument as the function sees it: a string (any other object enters through
  \<open>str()\<close>), a number, or a bool. For an \<open>int\<close> or a \<open>float\<close> the function returns
  \<open>Decimal(str(x))\<close>, and \<open>str\<close> of a number is always a literal the constructor
  accepts, so a number is given by that Decimal: \<open>PNum (Finite False 5 0)\<close> is the
  integer 5. A bool passes \<open>isinstance(x, (int, float))\<close> too, and \<open>Decimal('True')\<close>
  raises outside the \<open>try\<close>.
\<close>

datatype pyval = PStr string | PNum decimal | PBool bool

text \<open>Line 28: \<open>str(amount_str).replace('EUR', '').strip().replace('+', '').replace(' ', '')\<close>.\<close>

definition clean_amount :: "string \<Rightarrow> string" where
  "clean_amount s =
     py_replace '' '' '''' (py_replace ''+'' '''' (py_strip (py_replace ''EUR'' '''' s)))"

text \<open>Lines 36 to 70: the format is chosen from the numbers of points and commas.\<close>

definition detect_format :: "string \<Rightarrow> error + string" where
  "detect_format a =
    (let num_dots = py_count a CHR ''.'';
         num_commas = py_count a CHR '',''
     in if num_commas = 1 \<and> num_dots \<le> 1 then
          (if num_dots = 1 then
             (case (py_index a CHR ''.'', py_index a CHR '','') of
                (Some dot_pos, Some comma_pos) \<Rightarrow>
                  if dot_pos < comma_pos
                  then Inr (py_replace '','' ''.'' (py_replace ''.'' '''' a))
                  else Inr (py_replace '','' '''' a)
              | _ \<Rightarrow> Inl ValueError)
           else Inr (py_replace '','' ''.'' a))
        else if num_dots = 1 \<and> num_commas = 0 then
          (let parts = py_split CHR ''.'' a in
           if length parts = 2 \<and> length (parts ! 1) = 2 then Inr a
           else if length parts = 2 \<and> length (parts ! 1) = 3
             then Inr (py_replace ''.'' '''' a)
           else Inr a)
        else if num_dots > 1 then Inr (py_replace '','' ''.'' (py_replace ''.'' '''' a))
        else Inr a)"

text \<open>
  The result is the value and the warnings logged. \<open>try: return Decimal(amount_str)\<close>
  with a bare \<open>except\<close> logs the warning and returns \<open>Decimal('0')\<close>.
\<close>

definition parse_german_amount :: "pyval \<Rightarrow> error + decimal \<times> string list" where
  "parse_german_amount v = (case v of
       PNum d \<Rightarrow> Inr (d, [])
     | PBool b \<Rightarrow> Inl InvalidOperation
     | PStr s \<Rightarrow>
         (case detect_format (clean_amount s) of
            Inl err \<Rightarrow> Inl err
          | Inr a \<Rightarrow>
              (case py_Decimal a of
                 Some d \<Rightarrow> Inr (d, [])
               | None \<Rightarrow> Inr (Finite False 0 0, [''Konnte Betrag nicht parsen: '' @ a]))))"

section \<open>The balance check of one statement\<close>

text \<open>An exception ends the computation: the rest runs only on a value.\<close>

definition and_then :: "error + 'a \<Rightarrow> ('a \<Rightarrow> error + 'b) \<Rightarrow> error + 'b" where
  "and_then m f = (case m of Inl err \<Rightarrow> Inl err | Inr a \<Rightarrow> f a)"

text \<open>
  The result dictionary of \<open>validate_with_python\<close>. The source stores \<open>float(d)\<close> of each
  amount \<open>d\<close> for the report; the record keeps the Decimals they are computed from, and
  \<open>validierung_ok\<close> is computed on those. The \<open>except\<close> branch, which returns the
  dictionary with \<open>"error"\<close> and \<open>"validierung_ok": False\<close>, is \<open>Inl\<close>.
\<close>

record python_validierung =
  pv_anfangssaldo :: decimal
  endsaldo_aus_dokument :: decimal
  transaktionen_summe :: decimal
  berechneter_endsaldo :: decimal
  differenz :: decimal
  validierung_ok :: bool

text \<open>
  v7 lines 370 to 382, v8 lines 333 to 346:
  \<^verbatim>\<open>
  berechneter_saldo = anfangssaldo + summe
  differenz = abs(berechneter_saldo - endsaldo)
  ... "validierung_ok": differenz < Decimal('0.01')
  \<close>
\<close>

definition saldo_pruefung :: "decimal \<Rightarrow> decimal \<Rightarrow> decimal \<Rightarrow> error + python_validierung" where
  "saldo_pruefung anfang ende summe =
     and_then (dec_add anfang summe) (\<lambda>berechneter_saldo.
     and_then (dec_sub berechneter_saldo ende) (\<lambda>d.
     and_then (dec_abs d) (\<lambda>diff.
     and_then (dec_lt diff (Finite False 1 (- 2))) (\<lambda>ok.
       Inr \<lparr> pv_anfangssaldo = anfang, endsaldo_aus_dokument = ende,
             transaktionen_summe = summe, berechneter_endsaldo = berechneter_saldo,
             differenz = diff, validierung_ok = ok \<rparr>))))"

text \<open>
  The loop \<open>for t in transaktionen: betrag = ...; summe += betrag\<close>, for the way the
  version reads the amount of a transaction.
\<close>

fun summe_loop :: "('t \<Rightarrow> error + decimal) \<Rightarrow> decimal \<Rightarrow> 't list \<Rightarrow> error + decimal" where
  "summe_loop betrag summe [] = Inr summe"
| "summe_loop betrag summe (t # ts) =
     and_then (betrag t) (\<lambda>b.
     and_then (dec_add summe b) (\<lambda>s. summe_loop betrag s ts))"

subsection \<open>\<open>validate_with_python\<close> (analyze_kontoauszuege_v7.py, lines 346 to 388)\<close>

text \<open>
  A balance field of the draft: a bare string or number (\<open>Scalar\<close>), a dictionary with
  or without the key \<open>"betrag"\<close> (a missing field is the empty dictionary), or anything
  else, on which \<open>.get\<close> raises AttributeError. A transaction is read with
  \<open>t.get("betrag", 0)\<close>, so it is a dictionary or raises.
\<close>

datatype saldo_data = Scalar pyval | Dict "pyval option" | NoDict

datatype trans_data = TDict "pyval option" | TNoDict

record auszug =
  auszug_nummer :: string
  anfangssaldo :: saldo_data
  endsaldo :: saldo_data
  transaktionen :: "trans_data list"

definition betrag_or_0 :: "pyval option \<Rightarrow> error + decimal" where
  "betrag_or_0 b = map_sum id fst
     (parse_german_amount (case b of None \<Rightarrow> PNum (Finite False 0 0) | Some v \<Rightarrow> v))"

fun saldo_betrag :: "saldo_data \<Rightarrow> error + decimal" where
  "saldo_betrag (Scalar v) = map_sum id fst (parse_german_amount v)"
| "saldo_betrag (Dict b) = betrag_or_0 b"
| "saldo_betrag NoDict = Inl AttributeError"

fun trans_betrag :: "trans_data \<Rightarrow> error + decimal" where
  "trans_betrag (TDict b) = betrag_or_0 b"
| "trans_betrag TNoDict = Inl AttributeError"

definition validate_with_python :: "auszug \<Rightarrow> error + python_validierung" where
  "validate_with_python llm_result =
     and_then (saldo_betrag (anfangssaldo llm_result)) (\<lambda>anfang.
     and_then (saldo_betrag (endsaldo llm_result)) (\<lambda>ende.
     and_then (summe_loop trans_betrag (Finite False 0 0) (transaktionen llm_result)) (\<lambda>summe.
       saldo_pruefung anfang ende summe)))"

subsection \<open>\<open>validate_with_python_v8\<close> (analyze_kontoauszuege_v8.py, lines 289 to 356)\<close>

text \<open>
  v8 takes an amount from the conversion record of its field when that record holds a
  \<open>python_converted\<close> (\<open>Converted d\<close>, with \<open>d = Decimal(str(python_converted))\<close>),
  and parses \<open>betrag_nummer\<close>, else \<open>betrag_original\<close>, else 0 otherwise
  (\<open>Unconverted\<close>); a transaction that is no dictionary and has no conversion record
  raises AttributeError.
\<close>

datatype betrag_v8 = Converted decimal | Unconverted pyval | NotADict

fun betrag_of_v8 :: "betrag_v8 \<Rightarrow> error + decimal" where
  "betrag_of_v8 (Converted d) = Inr d"
| "betrag_of_v8 (Unconverted v) = map_sum id fst (parse_german_amount v)"
| "betrag_of_v8 NotADict = Inl AttributeError"

definition validate_with_python_v8 ::
  "betrag_v8 \<Rightarrow> betrag_v8 \<Rightarrow> betrag_v8 list \<Rightarrow> error + python_validierung" where
  "validate_with_python_v8 anfang_data ende_data trans_data =
     and_then (betrag_of_v8 anfang_data) (\<lambda>anfang.
     and_then (betrag_of_v8 ende_data) (\<lambda>ende.
     and_then (summe_loop betrag_of_v8 (Finite False 0 0) trans_data) (\<lambda>summe.
       saldo_pruefung anfang ende summe)))"

section \<open>Continuity between consecutive statements\<close>

record kontinuitaet_check =
  auszug_von :: string
  auszug_nach :: string
  endsaldo_von :: decimal
  anfangssaldo_nach :: decimal
  kontinuitaet_ok :: bool
  k_differenz :: decimal

text \<open>One pass of the loop of \<open>check_continuity\<close> (v7 lines 396 to 423).\<close>

definition check_pair :: "auszug \<Rightarrow> auszug \<Rightarrow> error + kontinuitaet_check" where
  "check_pair current next_stmt =
     and_then (saldo_betrag (endsaldo current)) (\<lambda>current_end.
     and_then (saldo_betrag (anfangssaldo next_stmt)) (\<lambda>next_start.
     and_then (dec_sub current_end next_start) (\<lambda>d.
     and_then (dec_abs d) (\<lambda>diff.
     and_then (dec_lt diff (Finite False 1 (- 2))) (\<lambda>ok.
       Inr \<lparr> auszug_von = auszug_nummer current, auszug_nach = auszug_nummer next_stmt,
             endsaldo_von = current_end, anfangssaldo_nach = next_start,
             kontinuitaet_ok = ok, k_differenz = diff \<rparr>)))))"

text \<open>\<open>for i in range(len(analysen) - 1)\<close> over \<open>analysen[i]\<close> and \<open>analysen[i + 1]\<close>.\<close>

fun kontinuitaet_checks :: "auszug list \<Rightarrow> error + kontinuitaet_check list" where
  "kontinuitaet_checks (a # b # rest) =
     and_then (check_pair a b) (\<lambda>c.
     and_then (kontinuitaet_checks (b # rest)) (\<lambda>cs. Inr (c # cs)))"
| "kontinuitaet_checks rest = Inr []"

text \<open>\<open>check_continuity\<close> (analyze_kontoauszuege_v7.py, lines 391 to 428): the checks
  and \<open>alle_ok\<close>.\<close>

definition check_continuity :: "auszug list \<Rightarrow> error + kontinuitaet_check list \<times> bool" where
  "check_continuity analysen =
     and_then (kontinuitaet_checks analysen) (\<lambda>cs. Inr (cs, list_all kontinuitaet_ok cs))"

subsection \<open>\<open>check_continuity_v8\<close> (analyze_kontoauszuege_v8.py, lines 359 to 386)\<close>

text \<open>
  v8 reads the two balances from \<open>python_validierung\<close>, where they are Python floats,
  and computes \<open>abs(current_end - next_start)\<close> and \<open>diff < 0.01\<close> in binary floating
  point. The floats are a type parameter here and the two operations are parameters
  \<open>absdiff\<close> and \<open>below\<close>, so what is proved of the function holds for the float
  operations too. A \<open>python_validierung\<close> that is the error dictionary has neither key:
  the field is \<open>None\<close> and the lookup raises KeyError.
\<close>

record 'f analyse_v8 =
  nummer_v8 :: string
  pv_anfang :: "'f option"
  pv_ende :: "'f option"

record 'f check_v8 =
  von_v8 :: string
  nach_v8 :: string
  endsaldo_von_v8 :: 'f
  anfangssaldo_nach_v8 :: 'f
  ok_v8 :: bool
  differenz_v8 :: 'f

definition check_pair_v8 ::
  "('f \<Rightarrow> 'f \<Rightarrow> 'f) \<Rightarrow> ('f \<Rightarrow> bool) \<Rightarrow> 'f analyse_v8 \<Rightarrow> 'f analyse_v8 \<Rightarrow> error + 'f check_v8" where
  "check_pair_v8 absdiff below current next_stmt =
     (case pv_ende current of
        None \<Rightarrow> Inl KeyError
      | Some current_end \<Rightarrow>
          (case pv_anfang next_stmt of
             None \<Rightarrow> Inl KeyError
           | Some next_start \<Rightarrow>
               Inr \<lparr> von_v8 = nummer_v8 current, nach_v8 = nummer_v8 next_stmt,
                     endsaldo_von_v8 = current_end, anfangssaldo_nach_v8 = next_start,
                     ok_v8 = below (absdiff current_end next_start),
                     differenz_v8 = absdiff current_end next_start \<rparr>))"

fun checks_v8 ::
  "('f \<Rightarrow> 'f \<Rightarrow> 'f) \<Rightarrow> ('f \<Rightarrow> bool) \<Rightarrow> 'f analyse_v8 list \<Rightarrow> error + 'f check_v8 list" where
  "checks_v8 absdiff below (a # b # rest) =
     and_then (check_pair_v8 absdiff below a b) (\<lambda>c.
     and_then (checks_v8 absdiff below (b # rest)) (\<lambda>cs. Inr (c # cs)))"
| "checks_v8 absdiff below rest = Inr []"

definition check_continuity_v8 ::
  "('f \<Rightarrow> 'f \<Rightarrow> 'f) \<Rightarrow> ('f \<Rightarrow> bool) \<Rightarrow> 'f analyse_v8 list \<Rightarrow> error + 'f check_v8 list \<times> bool" where
  "check_continuity_v8 absdiff below analysen =
     and_then (checks_v8 absdiff below analysen) (\<lambda>cs. Inr (cs, list_all ok_v8 cs))"

section \<open>\<open>classify_transaction_type\<close> (analyze_kontoauszuege_v7.py, lines 94 to 126)\<close>

text \<open>
  The returned strings, in the order of the source: 'Wertpapierverkauf',
  'Wertpapierkauf', 'Wertpapierabrechnung', 'Wertpapier-Sperrbetraege' (with a-umlaut),
  'Ueberweisung ausgehend', 'Ueberweisung eingehend' (with U-umlaut), 'Gutschrift',
  'Lastschrift', 'Depotentgelt', 'Entgeltabrechnung', 'Verwahrentgelt', 'Abrechnung',
  'Eingang', 'Ausgang'.
\<close>

datatype art =
    Wertpapierverkauf | Wertpapierkauf | Wertpapierabrechnung | Wertpapier_Sperrbetraege
  | Ueberweisung_ausgehend | Ueberweisung_eingehend | Gutschrift | Lastschrift
  | Depotentgelt | Entgeltabrechnung | Verwahrentgelt | Abrechnung | Eingang | Ausgang

text \<open>
  \<open>'vv' in description\<close> and \<open>'kv' in description\<close> search the description as given;
  every other keyword is searched in \<open>description.lower()\<close>. \<open>betrag < 0\<close> and
  \<open>betrag > 0\<close> raise on a NaN.
\<close>

definition classify_transaction_type :: "string \<Rightarrow> decimal \<Rightarrow> error + art" where
  "classify_transaction_type description betrag =
    (let desc_lower = py_lower description in
     if py_in ''wertpapierabrechnung'' desc_lower \<or> py_in ''wertp.'' desc_lower then
       (if py_in ''vv'' description \<or> py_in ''verkauf'' desc_lower then Inr Wertpapierverkauf
        else if py_in ''kv'' description \<or> py_in ''kauf'' desc_lower then Inr Wertpapierkauf
        else Inr Wertpapierabrechnung)
     else if py_in ''durchlfd'' desc_lower \<and> py_in ''sperrbetr'' desc_lower
       then Inr Wertpapier_Sperrbetraege
     else if py_in (CHR 0xFC # ''berweisung'') desc_lower
           \<or> py_in (CHR 0xFC # ''bertrag'') desc_lower then
       and_then (dec_lt betrag (Finite False 0 0)) (\<lambda>neg.
         Inr (if neg then Ueberweisung_ausgehend else Ueberweisung_eingehend))
     else if py_in ''gutschriftseingang'' desc_lower then Inr Gutschrift
     else if py_in ''lastschr'' desc_lower then Inr Lastschrift
     else if py_in ''depotentgelt'' desc_lower then Inr Depotentgelt
     else if py_in ''entgeltabrechnung'' desc_lower then Inr Entgeltabrechnung
     else if py_in ''abrechnung'' desc_lower then
       (if py_in ''verwahrentgelt'' desc_lower then Inr Verwahrentgelt else Inr Abrechnung)
     else
       and_then (dec_lt (Finite False 0 0) betrag) (\<lambda>pos.
         Inr (if pos then Eingang else Ausgang)))"

section \<open>The German amount format of the statements\<close>

text \<open>
  The wire format of an amount, in the spec's words: digit groups separated by \<open>.\<close>, the
  decimal separator \<open>,\<close>, an optional leading sign and an optional trailing marker
  \<open>EUR\<close>. \<open>german_literal ''-'' [''101'', ''046''] ''00'' '' EUR''\<close> is \<open>-101.046,00 EUR\<close>;
  the American-style literal of the same amount is \<open>-101046.00\<close>.
\<close>

fun join_groups :: "string list \<Rightarrow> string" where
  "join_groups [] = []"
| "join_groups [g] = g"
| "join_groups (g # gs) = g @ ''.'' @ join_groups gs"

definition german_literal :: "string \<Rightarrow> string list \<Rightarrow> string \<Rightarrow> string \<Rightarrow> string" where
  "german_literal sg groups frac marker = sg @ join_groups groups @ '','' @ frac @ marker"

definition american_literal :: "string \<Rightarrow> string list \<Rightarrow> string \<Rightarrow> string" where
  "american_literal sg groups frac = sg @ concat groups @ ''.'' @ frac"

definition digit_string :: "string \<Rightarrow> bool" where
  "digit_string ds \<longleftrightarrow> list_all is_digit ds"

definition german_format :: "string \<Rightarrow> string list \<Rightarrow> string \<Rightarrow> string \<Rightarrow> bool" where
  "german_format sg groups frac marker \<longleftrightarrow>
     sg \<in> set ['''', ''-'', ''+''] \<and>
     groups \<noteq> [] \<and> list_all (\<lambda>g. g \<noteq> [] \<and> digit_string g) groups \<and>
     digit_string frac \<and>
     marker \<in> set ['''', '' EUR'', ''EUR'']"

text \<open>The characters of a cleaned German amount: digits, point, comma and minus.\<close>

definition amount_char :: "char \<Rightarrow> bool" where
  "amount_char c \<longleftrightarrow> is_digit c \<or> c = CHR ''.'' \<or> c = CHR '','' \<or> c = CHR ''-''"

section \<open>Amounts on which the arithmetic is exact\<close>

text \<open>
  \<open>units k d\<close> is the value of a finite \<open>d\<close> counted in units of \<open>10^-k\<close> (for \<open>k = 2\<close>,
  in cents: \<open>units 2 (Finite True 10104600 (- 2)) = - 10104600\<close>). \<open>exact k d\<close> says that
  \<open>d\<close> is finite and has at most \<open>k\<close> fraction digits, so that \<open>units k d\<close> is its value
  without loss. In \<open>exact_amounts k ds\<close> the absolute values of the amounts add up to
  less than \<open>10^28\<close> units: then every sum and difference of some of them fits the 28
  digits of the context at \<open>k\<close> fraction digits, and no result is rounded.
\<close>

fun units :: "nat \<Rightarrow> decimal \<Rightarrow> int" where
  "units k (Finite s c e) = scaled (- int k) s c e"
| "units k (Infinity s) = 0"
| "units k (NaN g) = 0"

fun exact :: "nat \<Rightarrow> decimal \<Rightarrow> bool" where
  "exact k (Finite s c e) = (- int k \<le> e)"
| "exact k (Infinity s) = False"
| "exact k (NaN g) = False"

fun expo :: "decimal \<Rightarrow> int" where
  "expo (Finite s c e) = e"
| "expo (Infinity s) = 0"
| "expo (NaN g) = 0"

definition exact_amounts :: "nat \<Rightarrow> decimal list \<Rightarrow> bool" where
  "exact_amounts k ds \<longleftrightarrow>
     2 \<le> k \<and> k \<le> 1000000 \<and> list_all (exact k) ds \<and>
     (\<Sum>d\<leftarrow>ds. \<bar>units k d\<bar>) < 10 ^ prec"

text \<open>
  The reconciliation contract on exact amounts, in units of \<open>10^-k\<close>: the sum of the
  entries is exact, the computed closing balance is opening plus sum, the discrepancy
  is the absolute value of closing minus computed closing, and the statement is
  reconciled exactly when the discrepancy is below 0.01, which is \<open>10^(k-2)\<close> units.
\<close>

definition reconciles ::
  "nat \<Rightarrow> decimal \<Rightarrow> decimal \<Rightarrow> decimal list \<Rightarrow> python_validierung \<Rightarrow> bool" where
  "reconciles k opening closing entries res \<longleftrightarrow>
     pv_anfangssaldo res = opening \<and> endsaldo_aus_dokument res = closing \<and>
     exact k (transaktionen_summe res) \<and>
     units k (transaktionen_summe res) = (\<Sum>d\<leftarrow>entries. units k d) \<and>
     exact k (berechneter_endsaldo res) \<and>
     units k (berechneter_endsaldo res) = units k opening + (\<Sum>d\<leftarrow>entries. units k d) \<and>
     exact k (differenz res) \<and>
     units k (differenz res)
       = \<bar>units k closing - (units k opening + (\<Sum>d\<leftarrow>entries. units k d))\<bar> \<and>
     validierung_ok res
       = (\<bar>units k closing - (units k opening + (\<Sum>d\<leftarrow>entries. units k d))\<bar> < 10 ^ (k - 2))"

section \<open>Properties\<close>

subsection \<open>Fewer than two statements\<close>

lemma short_list_cases: "length xs < 2 \<Longrightarrow> xs = [] \<or> (\<exists>a. xs = [a])"
  by (cases xs; cases "tl xs") auto

text \<open>
  C10. For a sequence of fewer than two statements the loop \<open>range(len(analysen) - 1)\<close>
  does not run: \<open>check_continuity\<close> (v7) and \<open>check_continuity_v8\<close> return the empty list
  of checks and \<open>alle_ok = True\<close>, whatever the statements hold (no balance is read, so
  nothing can raise).
\<close>

theorem check_continuity_fewer_than_two:
  "(length analysen < 2 \<longrightarrow> check_continuity analysen = Inr ([], True)) \<and>
   (length analysen8 < 2 \<longrightarrow> check_continuity_v8 absdiff below analysen8 = Inr ([], True))"
proof (intro conjI impI)
  assume "length analysen < 2"
  then have "analysen = [] \<or> (\<exists>a. analysen = [a])" by (rule short_list_cases)
  then show "check_continuity analysen = Inr ([], True)"
    by (auto simp: check_continuity_def and_then_def)
next
  assume "length analysen8 < 2"
  then have "analysen8 = [] \<or> (\<exists>a. analysen8 = [a])" by (rule short_list_cases)
  then show "check_continuity_v8 absdiff below analysen8 = Inr ([], True)"
    by (auto simp: check_continuity_v8_def and_then_def)
qed

theorem check_continuity_single_statement:
  "check_continuity
     [\<lparr>auszug_nummer = ''3'', anfangssaldo = Scalar (PStr ''391.214,64''),
        endsaldo = Scalar (PStr ''405.107,75''), transaktionen = []\<rparr>] = Inr ([], True) \<and>
   check_continuity_v8 (\<lambda>a b. \<bar>a - b\<bar>) (\<lambda>d. d < 1)
     [\<lparr>nummer_v8 = ''3'', pv_anfang = Some (0::int), pv_ende = Some 5\<rparr>] = Inr ([], True)"
  using check_continuity_fewer_than_two
    [of "[\<lparr>auszug_nummer = ''3'', anfangssaldo = Scalar (PStr ''391.214,64''),
        endsaldo = Scalar (PStr ''405.107,75''), transaktionen = []\<rparr>]"
        "[\<lparr>nummer_v8 = ''3'', pv_anfang = Some (0::int), pv_ende = Some 5\<rparr>]"
        "\<lambda>a b. \<bar>a - b\<bar>" "\<lambda>d. d < 1"]
  by simp

subsection \<open>Classification\<close>

lemma dec_lt_zero: "dec_lt (Finite s c e) (Finite False 0 0) = Inr (s \<and> c \<noteq> 0)"
  by (auto simp: scaled_def Let_def mult_less_0_iff)

text \<open>
  C9. Classification is meant to be independent of letter case, and every keyword but
  two is searched in \<open>description.lower()\<close>. The markers \<open>'vv'\<close> and \<open>'kv'\<close> are
  searched in the description as given, so the bank's upper-case marker is missed:
  \<open>"Wertpapierabrechnung KV"\<close> is classified 'Wertpapierabrechnung' and its lower-case
  variant 'Wertpapierkauf'.
\<close>

theorem classify_upper_marker_missed:
  "py_lower ''Wertpapierabrechnung KV'' = ''wertpapierabrechnung kv'' \<and>
   classify_transaction_type ''Wertpapierabrechnung KV'' (Finite True 10104600 (- 2))
     = Inr Wertpapierabrechnung \<and>
   classify_transaction_type ''wertpapierabrechnung kv'' (Finite True 10104600 (- 2))
     = Inr Wertpapierkauf"
proof -
  have h1: "py_lower ''Wertpapierabrechnung KV'' = ''wertpapierabrechnung kv''"
    by code_simp
  have h2: "py_lower ''wertpapierabrechnung kv'' = ''wertpapierabrechnung kv''"
    by code_simp
  have c1: "classify_transaction_type ''Wertpapierabrechnung KV'' (Finite True 10104600 (- 2))
     = Inr Wertpapierabrechnung"
    unfolding classify_transaction_type_def Let_def h1 by simp
  have c2: "classify_transaction_type ''wertpapierabrechnung kv'' (Finite True 10104600 (- 2))
     = Inr Wertpapierkauf"
    unfolding classify_transaction_type_def Let_def h2 by simp
  from h1 c1 c2 show ?thesis by blast
qed

text \<open>
  A keyword that occurs in the description as written occurs in \<open>description.lower()\<close>
  in lower case.
\<close>

lemma py_in_map: "py_in sub d \<Longrightarrow> py_in (map f sub) (map f d)"
proof (induction d)
  case Nil
  then show ?case by simp
next
  case (Cons c cs)
  from Cons.prems have "take (length sub) (c # cs) = sub \<or> py_in sub cs" by simp
  then show ?case
  proof
    assume "take (length sub) (c # cs) = sub"
    then have "map f (take (length sub) (c # cs)) = map f sub" by simp
    then have "take (length (map f sub)) (map f (c # cs)) = map f sub"
      by (simp only: take_map length_map)
    then show ?thesis by (simp only: py_in.simps list.map) simp
  next
    assume "py_in sub cs"
    then have "py_in (map f sub) (map f cs)" by (rule Cons.IH)
    then show ?thesis by simp
  qed
qed

lemma marker_in_lower:
  "py_in ''vv'' d \<Longrightarrow> py_in ''vv'' (py_lower d)"
  "py_in ''kv'' d \<Longrightarrow> py_in ''kv'' (py_lower d)"
proof -
  have v: "py_lower ''vv'' = ''vv''" and k: "py_lower ''kv'' = ''kv''"
    by code_simp+
  show "py_in ''vv'' d \<Longrightarrow> py_in ''vv'' (py_lower d)"
    using py_in_map[of "''vv''" d lower_char] v by (simp add: py_lower_def)
  show "py_in ''kv'' d \<Longrightarrow> py_in ''kv'' (py_lower d)"
    using py_in_map[of "''kv''" d lower_char] k by (simp add: py_lower_def)
qed

text \<open>
  C5, as stated, fails in each of its three parts: a description that contains
  "Wertpapierabrechnung" and no buy or sell word is classified 'Wertpapierabrechnung' at
  the amount -101046.00 (the sign is not consulted); a description that contains
  "Ueberweisung" (with U-umlaut) after "Wertp." is a security booking at +68700.16, since
  the security rule comes first; and a description that contains "Verwahrentgelt" but
  not "abrechnung" falls through to the sign of the amount.
\<close>

theorem classify_without_marker:
  "py_in ''Wertpapierabrechnung'' ''Wertpapierabrechnung / Wert: 08.04.2022'' \<and>
   classify_transaction_type ''Wertpapierabrechnung / Wert: 08.04.2022''
     (Finite True 10104600 (- 2)) = Inr Wertpapierabrechnung \<and>
   py_in (CHR 0xDC # ''berweisung'') (''Wertp. '' @ CHR 0xDC # ''berweisung'') \<and>
   classify_transaction_type (''Wertp. '' @ CHR 0xDC # ''berweisung'')
     (Finite False 6870016 (- 2)) = Inr Wertpapierabrechnung \<and>
   py_in ''Verwahrentgelt'' ''Verwahrentgelt 2022'' \<and>
   classify_transaction_type ''Verwahrentgelt 2022'' (Finite True 1125 (- 2)) = Inr Ausgang \<and>
   classify_transaction_type ''Verwahrentgelt 2022'' (Finite False 1125 (- 2)) = Inr Eingang"
proof -
  have h1: "py_lower ''Wertpapierabrechnung / Wert: 08.04.2022''
      = ''wertpapierabrechnung / wert: 08.04.2022''"
    by code_simp
  have h2: "py_lower ''Verwahrentgelt 2022'' = ''verwahrentgelt 2022''"
    by code_simp
  have h3: "py_lower (''Wertp. '' @ CHR 0xDC # ''berweisung'')
      = ''wertp. '' @ CHR 0xFC # ''berweisung''"
    by code_simp
  have c1: "classify_transaction_type ''Wertpapierabrechnung / Wert: 08.04.2022''
     (Finite True 10104600 (- 2)) = Inr Wertpapierabrechnung"
    unfolding classify_transaction_type_def Let_def h1 by simp
  have c2: "classify_transaction_type ''Verwahrentgelt 2022'' (Finite True 1125 (- 2)) = Inr Ausgang"
    unfolding classify_transaction_type_def Let_def h2 by (simp add: and_then_def scaled_def)
  have c3: "classify_transaction_type ''Verwahrentgelt 2022'' (Finite False 1125 (- 2)) = Inr Eingang"
    unfolding classify_transaction_type_def Let_def h2 by (simp add: and_then_def scaled_def)
  have c4: "classify_transaction_type (''Wertp. '' @ CHR 0xDC # ''berweisung'')
     (Finite False 6870016 (- 2)) = Inr Wertpapierabrechnung"
    unfolding classify_transaction_type_def Let_def h3 by simp
  have p1: "py_in ''Wertpapierabrechnung'' ''Wertpapierabrechnung / Wert: 08.04.2022''" by simp
  have p2: "py_in ''Verwahrentgelt'' ''Verwahrentgelt 2022''" by simp
  have p3: "py_in (CHR 0xDC # ''berweisung'') (''Wertp. '' @ CHR 0xDC # ''berweisung'')" by simp
  from c1 c2 c3 c4 p1 p2 p3 show ?thesis by blast
qed

text \<open>
  C5, amended to what the classifier does by design; what it does with the markers
  \<open>vv\<close> and \<open>kv\<close> is left out. (1) A description that contains "wertpapierabrechnung"
  in any letter case is classified from the buy or sell word, whatever the amount and
  its sign: a sale when it contains "verkauf"; a purchase when it contains "kauf" but
  neither "verkauf" nor \<open>vv\<close> in any letter case; 'Wertpapierabrechnung' when it contains
  none of "kauf", \<open>vv\<close>, \<open>kv\<close> in any letter case. (2) A description that contains
  "ueberweisung" (with u-umlaut) and matches no security rule is an outgoing transfer for
  a negative amount and an incoming one otherwise, so incoming at +68700.16. (3) A
  description that contains "verwahrentgelt" and "abrechnung" and matches no rule
  before the 'abrechnung' rule is 'Verwahrentgelt', whatever the amount.
\<close>

theorem classify_keywords:
  "(py_in ''wertpapierabrechnung'' (py_lower d) \<longrightarrow>
      (py_in ''verkauf'' (py_lower d) \<longrightarrow> classify_transaction_type d a = Inr Wertpapierverkauf) \<and>
      (py_in ''kauf'' (py_lower d) \<and> \<not> py_in ''verkauf'' (py_lower d) \<and>
       \<not> py_in ''vv'' (py_lower d) \<longrightarrow> classify_transaction_type d a = Inr Wertpapierkauf) \<and>
      (\<not> py_in ''kauf'' (py_lower d) \<and> \<not> py_in ''verkauf'' (py_lower d) \<and>
       \<not> py_in ''vv'' (py_lower d) \<and> \<not> py_in ''kv'' (py_lower d) \<longrightarrow>
         classify_transaction_type d a = Inr Wertpapierabrechnung)) \<and>
   (py_in (CHR 0xFC # ''berweisung'') (py_lower t) \<and>
    \<not> py_in ''wertpapierabrechnung'' (py_lower t) \<and> \<not> py_in ''wertp.'' (py_lower t) \<and>
    \<not> (py_in ''durchlfd'' (py_lower t) \<and> py_in ''sperrbetr'' (py_lower t)) \<longrightarrow>
      classify_transaction_type t (Finite s c e) =
        Inr (if s \<and> c \<noteq> 0 then Ueberweisung_ausgehend else Ueberweisung_eingehend)) \<and>
   (py_in ''verwahrentgelt'' (py_lower v) \<and> py_in ''abrechnung'' (py_lower v) \<and>
    \<not> py_in ''wertpapierabrechnung'' (py_lower v) \<and> \<not> py_in ''wertp.'' (py_lower v) \<and>
    \<not> (py_in ''durchlfd'' (py_lower v) \<and> py_in ''sperrbetr'' (py_lower v)) \<and>
    \<not> py_in (CHR 0xFC # ''berweisung'') (py_lower v) \<and>
    \<not> py_in (CHR 0xFC # ''bertrag'') (py_lower v) \<and>
    \<not> py_in ''gutschriftseingang'' (py_lower v) \<and> \<not> py_in ''lastschr'' (py_lower v) \<and>
    \<not> py_in ''depotentgelt'' (py_lower v) \<and> \<not> py_in ''entgeltabrechnung'' (py_lower v) \<longrightarrow>
      classify_transaction_type v b = Inr Verwahrentgelt)"
proof (intro conjI impI)
  assume w: "py_in ''wertpapierabrechnung'' (py_lower d)"
    and "py_in ''verkauf'' (py_lower d)"
  then show "classify_transaction_type d a = Inr Wertpapierverkauf"
    unfolding classify_transaction_type_def Let_def by simp
next
  assume w: "py_in ''wertpapierabrechnung'' (py_lower d)"
    and k: "py_in ''kauf'' (py_lower d) \<and> \<not> py_in ''verkauf'' (py_lower d) \<and>
       \<not> py_in ''vv'' (py_lower d)"
  then have "\<not> py_in ''vv'' d" using marker_in_lower(1) by blast
  with w k show "classify_transaction_type d a = Inr Wertpapierkauf"
    unfolding classify_transaction_type_def Let_def by simp
next
  assume w: "py_in ''wertpapierabrechnung'' (py_lower d)"
    and k: "\<not> py_in ''kauf'' (py_lower d) \<and> \<not> py_in ''verkauf'' (py_lower d) \<and>
       \<not> py_in ''vv'' (py_lower d) \<and> \<not> py_in ''kv'' (py_lower d)"
  then have "\<not> py_in ''vv'' d" "\<not> py_in ''kv'' d" using marker_in_lower by blast+
  with w k show "classify_transaction_type d a = Inr Wertpapierabrechnung"
    unfolding classify_transaction_type_def Let_def by simp
next
  assume "py_in (CHR 0xFC # ''berweisung'') (py_lower t) \<and>
    \<not> py_in ''wertpapierabrechnung'' (py_lower t) \<and> \<not> py_in ''wertp.'' (py_lower t) \<and>
    \<not> (py_in ''durchlfd'' (py_lower t) \<and> py_in ''sperrbetr'' (py_lower t))"
  then show "classify_transaction_type t (Finite s c e) =
        Inr (if s \<and> c \<noteq> 0 then Ueberweisung_ausgehend else Ueberweisung_eingehend)"
    unfolding classify_transaction_type_def Let_def
    by (simp add: and_then_def dec_lt_zero del: dec_lt.simps)
next
  assume "py_in ''verwahrentgelt'' (py_lower v) \<and> py_in ''abrechnung'' (py_lower v) \<and>
    \<not> py_in ''wertpapierabrechnung'' (py_lower v) \<and> \<not> py_in ''wertp.'' (py_lower v) \<and>
    \<not> (py_in ''durchlfd'' (py_lower v) \<and> py_in ''sperrbetr'' (py_lower v)) \<and>
    \<not> py_in (CHR 0xFC # ''berweisung'') (py_lower v) \<and>
    \<not> py_in (CHR 0xFC # ''bertrag'') (py_lower v) \<and>
    \<not> py_in ''gutschriftseingang'' (py_lower v) \<and> \<not> py_in ''lastschr'' (py_lower v) \<and>
    \<not> py_in ''depotentgelt'' (py_lower v) \<and> \<not> py_in ''entgeltabrechnung'' (py_lower v)"
  then show "classify_transaction_type v b = Inr Verwahrentgelt"
    unfolding classify_transaction_type_def Let_def by simp
qed

theorem classify_keywords_examples:
  "py_in ''wertpapierabrechnung'' (py_lower ''Wertpapierabrechnung Kauf'') \<and>
   classify_transaction_type ''Wertpapierabrechnung Kauf'' (Finite True 10104600 (- 2))
     = Inr Wertpapierkauf \<and>
   classify_transaction_type ''Wertpapierabrechnung Verkauf'' (Finite True 10104600 (- 2))
     = Inr Wertpapierverkauf \<and>
   classify_transaction_type ''Wertpapierabrechnung / Wert: 08.04.2022''
     (Finite True 10104600 (- 2)) = Inr Wertpapierabrechnung \<and>
   py_in (CHR 0xFC # ''berweisung'') (py_lower (CHR 0xDC # ''berweisung Gehalt'')) \<and>
   classify_transaction_type (CHR 0xDC # ''berweisung Gehalt'') (Finite False 6870016 (- 2))
     = Inr Ueberweisung_eingehend \<and>
   py_in ''verwahrentgelt'' (py_lower ''Abrechnung Verwahrentgelt'') \<and>
   classify_transaction_type ''Abrechnung Verwahrentgelt'' (Finite True 1125 (- 2))
     = Inr Verwahrentgelt \<and>
   classify_transaction_type ''Abrechnung Verwahrentgelt'' (Finite False 1125 (- 2))
     = Inr Verwahrentgelt"
proof -
  have l1: "py_lower ''Wertpapierabrechnung Kauf'' = ''wertpapierabrechnung kauf''"
    by code_simp
  have l2: "py_lower (CHR 0xDC # ''berweisung Gehalt'') = CHR 0xFC # ''berweisung gehalt''"
    by code_simp
  have l3: "py_lower ''Abrechnung Verwahrentgelt'' = ''abrechnung verwahrentgelt''"
    by code_simp
  have l4: "py_lower ''Wertpapierabrechnung Verkauf'' = ''wertpapierabrechnung verkauf''"
    by code_simp
  have l5: "py_lower ''Wertpapierabrechnung / Wert: 08.04.2022''
      = ''wertpapierabrechnung / wert: 08.04.2022''"
    by code_simp
  have r1: "py_in ''wertpapierabrechnung'' (py_lower ''Wertpapierabrechnung Kauf'') \<and>
      classify_transaction_type ''Wertpapierabrechnung Kauf'' (Finite True 10104600 (- 2))
        = Inr Wertpapierkauf"
    using classify_keywords [of "''Wertpapierabrechnung Kauf''" "Finite True 10104600 (- 2)"]
    unfolding l1 by simp
  have r2: "classify_transaction_type ''Wertpapierabrechnung Verkauf''
      (Finite True 10104600 (- 2)) = Inr Wertpapierverkauf"
    using classify_keywords [of "''Wertpapierabrechnung Verkauf''" "Finite True 10104600 (- 2)"]
    unfolding l4 by simp
  have r3: "classify_transaction_type ''Wertpapierabrechnung / Wert: 08.04.2022''
      (Finite True 10104600 (- 2)) = Inr Wertpapierabrechnung"
    using classify_keywords
      [of "''Wertpapierabrechnung / Wert: 08.04.2022''" "Finite True 10104600 (- 2)"]
    unfolding l5 by simp
  have r4: "py_in (CHR 0xFC # ''berweisung'') (py_lower (CHR 0xDC # ''berweisung Gehalt'')) \<and>
      classify_transaction_type (CHR 0xDC # ''berweisung Gehalt'') (Finite False 6870016 (- 2))
        = Inr Ueberweisung_eingehend"
    using classify_keywords
      [of _ _ "CHR 0xDC # ''berweisung Gehalt''" False 6870016 "- 2"]
    unfolding l2 by simp
  have r5: "py_in ''verwahrentgelt'' (py_lower ''Abrechnung Verwahrentgelt'') \<and>
      classify_transaction_type ''Abrechnung Verwahrentgelt'' (Finite True 1125 (- 2))
        = Inr Verwahrentgelt"
    using classify_keywords
      [of _ _ _ _ _ _ "''Abrechnung Verwahrentgelt''" "Finite True 1125 (- 2)"]
    unfolding l3 by simp
  have r6: "classify_transaction_type ''Abrechnung Verwahrentgelt'' (Finite False 1125 (- 2))
        = Inr Verwahrentgelt"
    using classify_keywords
      [of _ _ _ _ _ _ "''Abrechnung Verwahrentgelt''" "Finite False 1125 (- 2)"]
    unfolding l3 by simp
  from r1 r2 r3 r4 r5 r6 show ?thesis by blast
qed

subsection \<open>\<open>parse_german_amount\<close> returns\<close>




text \<open>The error branch is taken, for instance, on a string with two commas.\<close>

lemma parse_german_amount_unparseable:
  "parse_german_amount (PStr ''12,34,56 EUR'') =
     Inr (Finite False 0 0, [''Konnte Betrag nicht parsen: 12,34,56''])"
  by code_simp

text \<open>A bool is no string, int or float of the contract, but \<open>isinstance\<close> takes it for
  an int: \<open>Decimal(str(True))\<close> raises before the \<open>try\<close>.\<close>

lemma parse_german_amount_bool: "parse_german_amount (PBool b) = Inl InvalidOperation"
  by (simp add: parse_german_amount_def)

subsection \<open>German literals\<close>

lemma py_replace_del: "py_replace [c] [] s = filter (\<lambda>x. x \<noteq> c) s"
  by (induction s) auto

lemma py_replace_char: "py_replace [c] [d] s = map (\<lambda>x. if x = c then d else x) s"
  by (induction s) auto

lemma replace_EUR_skip:
  "CHR ''E'' \<notin> set xs \<Longrightarrow> py_replace ''EUR'' '''' (xs @ ys) = xs @ py_replace ''EUR'' '''' ys"
  by (induction xs) auto

lemma digit_not_special:
  assumes "is_digit c"
  shows "c \<noteq> CHR ''.''" "c \<noteq> CHR '',''" "c \<noteq> CHR ''+''" "c \<noteq> CHR ''-''"
    "c \<noteq> CHR '' ''" "c \<noteq> CHR ''E''" "c \<noteq> CHR ''_''" "\<not> py_isspace c"
    "c \<noteq> CHR ''i''" "c \<noteq> CHR ''n''" "c \<noteq> CHR ''s''"
  using assms by (auto simp: is_digit_def py_isspace_def)

lemma lower_digit: "is_digit c \<Longrightarrow> lower_char c = c"
  by (auto simp: is_digit_def lower_char_def)

lemma py_strip_trailing:
  assumes "\<forall>c\<in>set xs. \<not> py_isspace c" "\<forall>c\<in>set ws. py_isspace c"
  shows "py_strip (xs @ ws) = xs"
proof (cases xs)
  case Nil
  with assms(2) show ?thesis
    by (auto simp: py_strip_def dest: set_dropWhileD)
next
  case (Cons x xs')
  with assms have a: "dropWhile py_isspace (xs @ ws) = xs @ ws" by simp
  have b: "dropWhile py_isspace (rev ws @ rev xs) = dropWhile py_isspace (rev xs)"
    using assms(2) by (auto intro!: dropWhile_append2)
  have "rev xs \<noteq> []" using Cons by simp
  moreover have "\<not> py_isspace (hd (rev xs))"
    using assms(1) Cons by (metis hd_rev last_in_set list.distinct(1))
  ultimately have c: "dropWhile py_isspace (rev xs) = rev xs"
    by (simp add: dropWhile_eq_self_iff)
  show ?thesis by (simp add: py_strip_def a b c)
qed

lemma join_groups_no_comma:
  "list_all (\<lambda>g. g \<noteq> [] \<and> digit_string g) gs \<Longrightarrow> \<forall>c\<in>set (join_groups gs). is_digit c \<or> c = CHR ''.''"
  by (induction gs rule: join_groups.induct) (auto simp: digit_string_def list_all_iff)

lemma join_groups_filter:
  "list_all (\<lambda>g. g \<noteq> [] \<and> digit_string g) gs \<Longrightarrow>
     filter (\<lambda>x. x \<noteq> CHR ''.'') (join_groups gs) = concat gs"
proof (induction gs rule: join_groups.induct)
  case (2 g)
  then have "\<forall>c\<in>set g. c \<noteq> CHR ''.''"
    by (auto simp: digit_string_def list_all_iff dest: digit_not_special(1))
  then show ?case by (simp add: filter_id_conv)
next
  case (3 g v va)
  then have "\<forall>c\<in>set g. c \<noteq> CHR ''.''"
    by (auto simp: digit_string_def list_all_iff dest: digit_not_special(1))
  then have "filter (\<lambda>x. x \<noteq> CHR ''.'') g = g" by (simp add: filter_id_conv)
  with 3 show ?case by simp
qed simp

lemma body_chars:
  assumes "list_all (\<lambda>g. g \<noteq> [] \<and> digit_string g) gs" "digit_string fr"
  shows "\<forall>c\<in>set (join_groups gs @ '','' @ fr). is_digit c \<or> c = CHR ''.'' \<or> c = CHR '',''"
  using join_groups_no_comma[OF assms(1)] assms(2)
  by (auto simp: digit_string_def list_all_iff)

lemma amount_char_props:
  assumes "amount_char c"
  shows "c \<noteq> CHR ''E''" "\<not> py_isspace c" "c \<noteq> CHR '' ''" "c \<noteq> CHR ''_''" "c \<noteq> CHR ''+''"
proof -
  from assms consider "is_digit c" | "c = CHR ''.''" | "c = CHR '',''" | "c = CHR ''-''"
    by (auto simp: amount_char_def)
  then show "c \<noteq> CHR ''E''" by cases (auto dest: digit_not_special(6))
  from assms consider "is_digit c" | "c = CHR ''.''" | "c = CHR '',''" | "c = CHR ''-''"
    by (auto simp: amount_char_def)
  then show "\<not> py_isspace c" by cases (auto simp: py_isspace_def dest: digit_not_special(8))
  from assms consider "is_digit c" | "c = CHR ''.''" | "c = CHR '',''" | "c = CHR ''-''"
    by (auto simp: amount_char_def)
  then show "c \<noteq> CHR '' ''" by cases (auto dest: digit_not_special(5))
  from assms consider "is_digit c" | "c = CHR ''.''" | "c = CHR '',''" | "c = CHR ''-''"
    by (auto simp: amount_char_def)
  then show "c \<noteq> CHR ''_''" by cases (auto dest: digit_not_special(7))
  from assms consider "is_digit c" | "c = CHR ''.''" | "c = CHR '',''" | "c = CHR ''-''"
    by (auto simp: amount_char_def)
  then show "c \<noteq> CHR ''+''" by cases (auto dest: digit_not_special(3))
qed

lemma clean_german:
  assumes "german_format sg gs fr mk"
  shows "clean_amount (german_literal sg gs fr mk) =
           (if sg = ''+'' then [] else sg) @ join_groups gs @ '','' @ fr"
proof -
  define body where "body = join_groups gs @ '','' @ fr"
  define sg' where "sg' = (if sg = ''+'' then [] else sg)"
  from assms have gs: "list_all (\<lambda>g. g \<noteq> [] \<and> digit_string g) gs" and fr: "digit_string fr"
    by (simp_all add: german_format_def)
  from assms have sg: "sg = [] \<or> sg = ''-'' \<or> sg = ''+''"
    by (simp add: german_format_def)
  from assms have mk: "mk = [] \<or> mk = '' EUR'' \<or> mk = ''EUR''"
    by (simp add: german_format_def)
  have bc: "\<forall>c\<in>set body. amount_char c"
    using body_chars[OF gs fr] unfolding body_def amount_char_def by blast
  have sgset: "set sg \<subseteq> {CHR ''-'', CHR ''+''}"
    using sg by auto
  have sgset': "\<forall>c\<in>set sg'. amount_char c"
    using sg unfolding sg'_def amount_char_def by auto
  have noE: "CHR ''E'' \<notin> set (sg @ body)"
  proof
    assume "CHR ''E'' \<in> set (sg @ body)"
    then have "CHR ''E'' \<in> set sg \<or> CHR ''E'' \<in> set body" by simp
    then show False
    proof
      assume "CHR ''E'' \<in> set sg" with sgset show False by auto
    next
      assume "CHR ''E'' \<in> set body"
      with bc have "amount_char CHR ''E''" by blast
      then show False using amount_char_props(1) by blast
    qed
  qed
  have nosp: "\<forall>c\<in>set (sg @ body). \<not> py_isspace c"
  proof
    fix c assume "c \<in> set (sg @ body)"
    then have "c \<in> set sg \<or> c \<in> set body" by simp
    then show "\<not> py_isspace c"
    proof
      assume "c \<in> set sg"
      with sgset have "c = CHR ''-'' \<or> c = CHR ''+''" by auto
      then show ?thesis by (auto simp: py_isspace_def)
    next
      assume "c \<in> set body"
      with bc show ?thesis using amount_char_props(2) by blast
    qed
  qed
  have "py_replace ''EUR'' [] mk = [] \<or> py_replace ''EUR'' [] mk = '' ''"
    using mk by auto
  then obtain m where m: "py_replace ''EUR'' [] mk = m" and msp: "\<forall>c\<in>set m. py_isspace c"
    by (auto simp: py_isspace_def)
  have s1: "py_replace ''EUR'' [] (german_literal sg gs fr mk) = (sg @ body) @ m"
    using replace_EUR_skip[OF noE, of mk] m
    by (simp add: german_literal_def body_def)
  have s2: "py_strip ((sg @ body) @ m) = sg @ body"
    by (rule py_strip_trailing[OF nosp msp])
  have "\<forall>c\<in>set body. c \<noteq> CHR ''+''"
    using bc amount_char_props(5) by blast
  then have fb: "filter (\<lambda>x. x \<noteq> CHR ''+'') body = body"
    by (simp add: filter_id_conv)
  have fs: "filter (\<lambda>x. x \<noteq> CHR ''+'') sg = sg'"
    using sg unfolding sg'_def by auto
  have s3: "py_replace ''+'' [] (sg @ body) = sg' @ body"
    unfolding py_replace_del by (simp add: fb fs)
  have "\<forall>c\<in>set (sg' @ body). c \<noteq> CHR '' ''"
    using bc sgset' amount_char_props(3) by auto
  then have s4: "py_replace '' '' [] (sg' @ body) = sg' @ body"
    unfolding py_replace_del by (simp add: filter_id_conv)
  show ?thesis
    unfolding clean_amount_def s1 s2 s3 s4 by (simp add: body_def sg'_def)
qed

lemma takeWhile_shorter: "x \<in> set xs \<Longrightarrow> \<not> P x \<Longrightarrow> length (takeWhile P xs) < length xs"
  by (induction xs) auto

lemma py_replace_del_id: "c \<notin> set s \<Longrightarrow> py_replace [c] [] s = s"
  by (auto simp: py_replace_del filter_id_conv)

lemma detect_german:
  assumes sg: "sg = [] \<or> sg = ''-''"
    and gs: "list_all (\<lambda>g. g \<noteq> [] \<and> digit_string g) gs"
    and fr: "digit_string fr"
  shows "detect_format (sg @ join_groups gs @ '','' @ fr) = Inr (sg @ concat gs @ ''.'' @ fr)"
proof -
  define pre where "pre = sg @ join_groups gs"
  define a where "a = pre @ '','' @ fr"
  define target where "target = sg @ concat gs @ ''.'' @ fr"
  have frd: "\<forall>c\<in>set fr. is_digit c"
    using fr by (simp add: digit_string_def list_all_iff)
  have fr_nc: "\<forall>c\<in>set fr. c \<noteq> CHR '',''" and fr_nd: "\<forall>c\<in>set fr. c \<noteq> CHR ''.''"
    using frd digit_not_special(1,2) by blast+
  have jg: "\<forall>c\<in>set (join_groups gs). is_digit c \<or> c = CHR ''.''"
    by (rule join_groups_no_comma[OF gs])
  have jg_nc: "\<forall>c\<in>set (join_groups gs). c \<noteq> CHR '',''"
    using jg digit_not_special(2) by auto
  have sg_nc: "\<forall>c\<in>set sg. c \<noteq> CHR '',''" and sg_nd: "\<forall>c\<in>set sg. c \<noteq> CHR ''.''"
    using sg by auto
  have pre_nc: "\<forall>c\<in>set pre. c \<noteq> CHR '',''"
    using jg_nc sg_nc by (auto simp: pre_def)
  have cg: "\<forall>c\<in>set (concat gs). c \<noteq> CHR '',''"
    using gs digit_not_special(2) by (auto simp: list_all_iff digit_string_def)
  \<comment> \<open>one comma\<close>
  have "filter (\<lambda>x. x = CHR '','') pre = []"
    using pre_nc by (auto simp: filter_empty_conv)
  moreover have "filter (\<lambda>x. x = CHR '','') fr = []"
    using fr_nc by (auto simp: filter_empty_conv)
  ultimately have commas: "py_count a CHR '','' = 1"
    by (simp add: py_count_def a_def)
  \<comment> \<open>removing the points and turning the comma into a point\<close>
  have f1: "filter (\<lambda>x. x \<noteq> CHR ''.'') sg = sg"
    using sg_nd by (simp add: filter_id_conv)
  have f2: "filter (\<lambda>x. x \<noteq> CHR ''.'') fr = fr"
    using fr_nd by (simp add: filter_id_conv)
  have del: "py_replace ''.'' [] a = sg @ concat gs @ '','' @ fr"
    unfolding py_replace_del a_def pre_def
    by (simp add: f1 f2 join_groups_filter[OF gs])
  have m1: "map (\<lambda>x. if x = CHR '','' then CHR ''.'' else x) sg = sg"
    using sg_nc by (simp add: map_idI)
  have m2: "map (\<lambda>x. if x = CHR '','' then CHR ''.'' else x) (concat gs) = concat gs"
    using cg by (intro map_idI) auto
  have m3: "map (\<lambda>x. if x = CHR '','' then CHR ''.'' else x) fr = fr"
    using fr_nc by (simp add: map_idI)
  have both: "py_replace '','' ''.'' (py_replace ''.'' [] a) = target"
    unfolding del py_replace_char target_def
    by (simp add: m1 m2 m3)
  \<comment> \<open>the three formats\<close>
  show ?thesis
  proof (cases "py_count a CHR ''.'' = 0")
    case True
    then have "CHR ''.'' \<notin> set a"
      by (auto simp: py_count_def filter_empty_conv)
    then have "py_replace ''.'' [] a = a" by (rule py_replace_del_id)
    with both have "py_replace '','' ''.'' a = target" by simp
    with True commas have "detect_format a = Inr target"
      by (simp add: detect_format_def Let_def)
    then show ?thesis by (simp add: a_def pre_def target_def)
  next
    case False
    show ?thesis
    proof (cases "py_count a CHR ''.'' = 1")
      case True
      have "CHR ''.'' \<in> set a"
      proof (rule ccontr)
        assume "CHR ''.'' \<notin> set a"
        then have "filter (\<lambda>x. x = CHR ''.'') a = []" by (auto simp: filter_empty_conv)
        with True show False by (simp add: py_count_def)
      qed
      then have inpre: "CHR ''.'' \<in> set pre"
        using fr_nd by (auto simp: a_def)
      have "takeWhile (\<lambda>x. x \<noteq> CHR ''.'') a = takeWhile (\<lambda>x. x \<noteq> CHR ''.'') pre"
        unfolding a_def using inpre by (intro takeWhile_append1[of "CHR ''.''"]) simp_all
      then have i: "py_index a CHR ''.'' = Some (length (takeWhile (\<lambda>x. x \<noteq> CHR ''.'') pre))"
        using \<open>CHR ''.'' \<in> set a\<close> by (simp add: py_index_def)
      have "takeWhile (\<lambda>x. x \<noteq> CHR '','') a = pre"
        unfolding a_def using pre_nc by (simp add: takeWhile_append2)
      then have j: "py_index a CHR '','' = Some (length pre)"
        by (simp add: py_index_def a_def)
      have lt: "length (takeWhile (\<lambda>x. x \<noteq> CHR ''.'') pre) < length pre"
        using inpre by (intro takeWhile_shorter[of "CHR ''.''"]) simp_all
      have "detect_format a = Inr target"
        using True commas i j lt both by (simp add: detect_format_def Let_def)
      then show ?thesis by (simp add: a_def pre_def target_def)
    next
      case F2: False
      with False have "py_count a CHR ''.'' > 1" by arith
      with commas both have "detect_format a = Inr target"
        by (simp add: detect_format_def Let_def)
      then show ?thesis by (simp add: a_def pre_def target_def)
    qed
  qed
qed

lemma not_digit_point: "\<not> is_digit CHR ''.''"
  by (simp add: is_digit_def)

lemma py_strip_id: "\<forall>c\<in>set s. \<not> py_isspace c \<Longrightarrow> py_strip s = s"
  using py_strip_trailing[of s "[]"] by simp

lemma py_Decimal_literal:
  assumes sg: "sg = [] \<or> sg = ''-'' \<or> sg = ''+''"
    and ne: "ds \<noteq> []" and ds: "digit_string ds" and fr: "digit_string fr"
  shows "py_Decimal (sg @ ds @ ''.'' @ fr) =
           Some (Finite (sg = ''-'') (nat_of_digits (ds @ fr)) (- int (length fr)))"
proof -
  define r where "r = ds @ ''.'' @ fr"
  have dsd: "\<forall>c\<in>set ds. is_digit c" and frd: "\<forall>c\<in>set fr. is_digit c"
    using ds fr by (simp_all add: digit_string_def list_all_iff)
  obtain d ds' where dcons: "ds = d # ds'" using ne by (cases ds) auto
  have dd: "is_digit d" using dsd dcons by simp
  have rc: "\<forall>c\<in>set r. is_digit c \<or> c = CHR ''.''"
    using dsd frd by (auto simp: r_def)
  have r_nosp: "\<forall>c\<in>set r. \<not> py_isspace c"
    using rc digit_not_special(8) by (auto simp: py_isspace_def)
  have r_nous: "\<forall>c\<in>set r. c \<noteq> CHR ''_''"
    using rc digit_not_special(7) by auto
  have sg_nosp: "\<forall>c\<in>set sg. \<not> py_isspace c" and sg_nous: "\<forall>c\<in>set sg. c \<noteq> CHR ''_''"
    using sg by (auto simp: py_isspace_def)
  have st: "py_strip (sg @ r) = sg @ r"
    using r_nosp sg_nosp by (intro py_strip_id) auto
  have fu: "filter (\<lambda>c. c \<noteq> CHR ''_'') (sg @ r) = sg @ r"
    using r_nous sg_nous by (auto simp: filter_id_conv)
  have "d \<noteq> CHR ''-''" "d \<noteq> CHR ''+''"
    using dd digit_not_special(3,4) by blast+
  then have ss: "split_sign (sg @ r) = (sg = ''-'', r)"
    using sg by (auto simp: split_sign_def r_def dcons)
  \<comment> \<open>the rest starts with a digit: it is no infinity and no NaN\<close>
  have hd: "py_lower r = d # py_lower (ds' @ ''.'' @ fr)"
    using lower_digit[OF dd] by (simp add: py_lower_def r_def dcons)
  have "d \<noteq> CHR ''i''" "d \<noteq> CHR ''n''" "d \<noteq> CHR ''s''"
    using dd digit_not_special(9,10,11) by blast+
  then have sp: "py_lower r \<noteq> ''inf''" "py_lower r \<noteq> ''infinity''"
    "\<not> nan_form ''nan'' (py_lower r)" "\<not> nan_form ''snan'' (py_lower r)"
    unfolding hd by (simp_all add: nan_form_def)
  \<comment> \<open>the digits, the point, the digits\<close>
  have t1: "takeWhile is_digit r = ds"
    unfolding r_def using dsd not_digit_point by (simp add: takeWhile_append2)
  have t2: "dropWhile is_digit r = ''.'' @ fr"
    unfolding r_def using dsd not_digit_point by (simp add: dropWhile_append2)
  have t3: "takeWhile is_digit fr = fr" "dropWhile is_digit fr = []"
    using frd by (simp_all add: takeWhile_eq_all_conv dropWhile_eq_Nil_conv)
  have pn: "parse_number r = Some (nat_of_digits (ds @ fr), - int (length fr))"
    unfolding parse_number_def t1 t2 using ne
    by (simp add: t3 parse_exponent_def)
  show ?thesis
    unfolding py_Decimal_def r_def[symmetric] st fu ss
    using sp pn by (simp add: r_def)
qed

lemma parse_german_amount_str:
  "parse_german_amount (PStr s) =
     (case detect_format (clean_amount s) of
        Inl err \<Rightarrow> Inl err
      | Inr a \<Rightarrow>
          (case py_Decimal a of
             Some d \<Rightarrow> Inr (d, [])
           | None \<Rightarrow> Inr (Finite False 0 0, [''Konnte Betrag nicht parsen: '' @ a])))"
  by (simp add: parse_german_amount_def)

text \<open>
  C2. For every amount in the German format (an optional sign, digit groups separated by
  points, a comma, fraction digits, an optional marker \<open>EUR\<close>),
  \<open>parse_german_amount\<close> returns, without a warning, exactly the Decimal that the
  constructor builds from the American-style literal of the same sign and digits: the
  coefficient is the number written by the digits of the groups and the fraction, the
  exponent is minus the number of fraction digits.
\<close>

theorem parse_german_literal:
  assumes "german_format sg gs fr mk"
  shows "parse_german_amount (PStr (german_literal sg gs fr mk)) =
           Inr (Finite (sg = ''-'') (nat_of_digits (concat gs @ fr)) (- int (length fr)), []) \<and>
         py_Decimal (american_literal sg gs fr) =
           Some (Finite (sg = ''-'') (nat_of_digits (concat gs @ fr)) (- int (length fr)))"
proof -
  define sg' where "sg' = (if sg = ''+'' then [] else sg)"
  from assms have gs: "list_all (\<lambda>g. g \<noteq> [] \<and> digit_string g) gs" and fr: "digit_string fr"
    and ne: "gs \<noteq> []"
    by (simp_all add: german_format_def)
  from assms have sg: "sg = [] \<or> sg = ''-'' \<or> sg = ''+''"
    by (simp add: german_format_def)
  then have sg': "sg' = [] \<or> sg' = ''-''" and sgeq: "(sg' = ''-'') = (sg = ''-'')"
    by (auto simp: sg'_def)
  have cne: "concat gs \<noteq> []"
    using gs ne by (cases gs) auto
  have cd: "digit_string (concat gs)"
    using gs by (auto simp: digit_string_def list_all_iff)
  have c: "clean_amount (german_literal sg gs fr mk) = sg' @ join_groups gs @ '','' @ fr"
    unfolding sg'_def by (rule clean_german[OF assms])
  have d: "detect_format (sg' @ join_groups gs @ '','' @ fr) = Inr (sg' @ concat gs @ ''.'' @ fr)"
    by (rule detect_german[OF sg' gs fr])
  have "sg' = [] \<or> sg' = ''-'' \<or> sg' = ''+''" using sg' by blast
  then have p: "py_Decimal (sg' @ concat gs @ ''.'' @ fr) =
      Some (Finite (sg = ''-'') (nat_of_digits (concat gs @ fr)) (- int (length fr)))"
    using py_Decimal_literal[OF _ cne cd fr, of sg'] sgeq by simp
  have one: "parse_german_amount (PStr (german_literal sg gs fr mk)) =
           Inr (Finite (sg = ''-'') (nat_of_digits (concat gs @ fr)) (- int (length fr)), [])"
    unfolding parse_german_amount_str c d using p by simp
  have two: "py_Decimal (american_literal sg gs fr) =
           Some (Finite (sg = ''-'') (nat_of_digits (concat gs @ fr)) (- int (length fr)))"
    unfolding american_literal_def by (rule py_Decimal_literal[OF sg cne cd fr])
  from one two show ?thesis by blast
qed

text \<open>The amounts "-101.046,00 EUR", "1.234,56" and "37.000,00" of the spec.\<close>

theorem parse_german_literal_examples:
  "german_format ''-'' [''101'', ''046''] ''00'' '' EUR'' \<and>
   german_literal ''-'' [''101'', ''046''] ''00'' '' EUR'' = ''-101.046,00 EUR'' \<and>
   american_literal ''-'' [''101'', ''046''] ''00'' = ''-101046.00'' \<and>
   parse_german_amount (PStr ''-101.046,00 EUR'') = Inr (Finite True 10104600 (- 2), []) \<and>
   py_Decimal ''-101046.00'' = Some (Finite True 10104600 (- 2)) \<and>
   german_format [] [''1'', ''234''] ''56'' [] \<and>
   parse_german_amount (PStr ''1.234,56'') = Inr (Finite False 123456 (- 2), []) \<and>
   py_Decimal ''1234.56'' = Some (Finite False 123456 (- 2)) \<and>
   german_format [] [''37'', ''000''] ''00'' [] \<and>
   parse_german_amount (PStr ''37.000,00'') = Inr (Finite False 3700000 (- 2), []) \<and>
   py_Decimal ''37000.00'' = Some (Finite False 3700000 (- 2))"
proof -
  have f1: "german_format ''-'' [''101'', ''046''] ''00'' '' EUR''"
    by (simp add: german_format_def digit_string_def is_digit_def)
  have f2: "german_format [] [''1'', ''234''] ''56'' []"
    by (simp add: german_format_def digit_string_def is_digit_def)
  have f3: "german_format [] [''37'', ''000''] ''00'' []"
    by (simp add: german_format_def digit_string_def is_digit_def)
  have g1: "german_literal ''-'' [''101'', ''046''] ''00'' '' EUR'' = ''-101.046,00 EUR''"
    by (simp add: german_literal_def)
  have a1: "american_literal ''-'' [''101'', ''046''] ''00'' = ''-101046.00''"
    by (simp add: american_literal_def)
  have r1: "parse_german_amount (PStr ''-101.046,00 EUR'') = Inr (Finite True 10104600 (- 2), []) \<and>
      py_Decimal ''-101046.00'' = Some (Finite True 10104600 (- 2))"
    using parse_german_literal[OF f1]
    by (simp add: german_literal_def american_literal_def nat_of_digits_def digit_val_def)
  have r2: "parse_german_amount (PStr ''1.234,56'') = Inr (Finite False 123456 (- 2), []) \<and>
      py_Decimal ''1234.56'' = Some (Finite False 123456 (- 2))"
    using parse_german_literal[OF f2]
    by (simp add: german_literal_def american_literal_def nat_of_digits_def digit_val_def)
  have r3: "parse_german_amount (PStr ''37.000,00'') = Inr (Finite False 3700000 (- 2), []) \<and>
      py_Decimal ''37000.00'' = Some (Finite False 3700000 (- 2))"
    using parse_german_literal[OF f3]
    by (simp add: german_literal_def american_literal_def nat_of_digits_def digit_val_def)
  from f1 f2 f3 g1 a1 r1 r2 r3 show ?thesis by blast
qed

subsection \<open>Sums without rounding\<close>

lemma ndigits_bound: "c < 10 ^ n \<Longrightarrow> 0 < n \<Longrightarrow> ndigits c \<le> n"
proof (induction n arbitrary: c)
  case 0
  then show ?case by simp
next
  case (Suc m)
  show ?case
  proof (cases "c < 10")
    case True
    then show ?thesis by (subst ndigits.simps) simp
  next
    case False
    from Suc.prems have lt: "c div 10 < 10 ^ m"
      by (simp add: less_mult_imp_div_less mult.commute)
    have "0 < m"
    proof (rule ccontr)
      assume "\<not> 0 < m"
      with Suc.prems False show False by simp
    qed
    with Suc.IH[OF lt] have "ndigits (c div 10) \<le> m" by simp
    with False show ?thesis by (subst ndigits.simps) simp
  qed
qed

lemma dec_fix_exact:
  assumes bound: "int c * 10 ^ nat (e + int k) < 10 ^ prec"
    and lo: "- int k \<le> e" and k: "k \<le> 1000000"
  shows "\<exists>e'. dec_fix s c e = Inr (Finite s c e') \<and> - int k \<le> e' \<and>
           (c \<noteq> 0 \<longrightarrow> e' = e) \<and> (e \<le> 0 \<longrightarrow> e' = e)"
proof (cases "c = 0")
  case True
  have "min (max e Etiny) Emax = e" if "e \<le> 0"
    using that lo k by (simp add: Etiny_def Emax_def Emin_def prec_def)
  moreover have "- int k \<le> min (max e Etiny) Emax"
    using lo k by (simp add: Etiny_def Emax_def Emin_def prec_def)
  ultimately show ?thesis
    using True by (simp add: dec_fix_def)
next
  case False
  then have c1: "1 \<le> int c" by simp
  have p1: "(1::int) \<le> 10 ^ nat (e + int k)" by simp
  have "(10::int) ^ nat (e + int k) \<le> int c * 10 ^ nat (e + int k)"
    using c1 by (simp add: mult_le_cancel_right1)
  from this bound have "(10::int) ^ nat (e + int k) < 10 ^ prec" by (rule le_less_trans)
  then have "nat (e + int k) < prec" by simp
  then have e28: "e < int prec" by linarith
  have "int c \<le> int c * 10 ^ nat (e + int k)"
    using p1 by (simp add: mult_le_cancel_left1)
  from this bound have "int c < 10 ^ prec" by (rule le_less_trans)
  then have "int c < int (10 ^ prec)" by simp
  then have "c < 10 ^ prec" by (simp only: of_nat_less_iff)
  then have nd: "ndigits c \<le> prec" by (rule ndigits_bound) (simp add: prec_def)
  have a: "\<not> int (ndigits c) + e - int prec > Etop"
    using nd e28 by (simp add: prec_def Etop_def Emax_def)
  have b: "\<not> e < max (int (ndigits c) + e - int prec) Etiny"
    using nd lo k by (simp add: prec_def Etiny_def Emin_def)
  show ?thesis
    using False a b lo by (simp add: dec_fix_def Let_def)
qed

lemma scaled_units:
  assumes "- int k \<le> e0" "e0 \<le> e"
  shows "scaled (- int k) s c e = scaled e0 s c e * 10 ^ nat (e0 + int k)"
proof -
  have "nat (e + int k) = nat (e - e0) + nat (e0 + int k)"
    using assms by linarith
  then show ?thesis
    by (simp add: scaled_def power_add)
qed

lemma dec_add_exact:
  assumes e1: "- int k \<le> e1" and e2: "- int k \<le> e2" and k: "k \<le> 1000000"
    and b: "\<bar>scaled (- int k) s1 c1 e1 + scaled (- int k) s2 c2 e2\<bar> < 10 ^ prec"
  shows "\<exists>s c e. dec_add (Finite s1 c1 e1) (Finite s2 c2 e2) = Inr (Finite s c e) \<and>
           - int k \<le> e \<and>
           scaled (- int k) s c e = scaled (- int k) s1 c1 e1 + scaled (- int k) s2 c2 e2 \<and>
           (min e1 e2 \<le> 0 \<longrightarrow> e = min e1 e2) \<and>
           (\<not> (s1 \<and> c1 = 0) \<longrightarrow> \<not> (s \<and> c = 0))"
proof -
  define e0 where "e0 = min e1 e2"
  define n where "n = scaled e0 s1 c1 e1 + scaled e0 s2 c2 e2"
  define P :: int where "P = 10 ^ nat (e0 + int k)"
  have lo: "- int k \<le> e0" using e1 e2 by (simp add: e0_def)
  have u1: "scaled (- int k) s1 c1 e1 = scaled e0 s1 c1 e1 * P"
    unfolding P_def by (rule scaled_units[OF lo]) (simp add: e0_def)
  have u2: "scaled (- int k) s2 c2 e2 = scaled e0 s2 c2 e2 * P"
    unfolding P_def by (rule scaled_units[OF lo]) (simp add: e0_def)
  have sum: "scaled (- int k) s1 c1 e1 + scaled (- int k) s2 c2 e2 = n * P"
    by (simp add: u1 u2 n_def distrib_right)
  have add: "dec_add (Finite s1 c1 e1) (Finite s2 c2 e2) =
      (if n = 0 then dec_fix (c1 = 0 \<and> c2 = 0 \<and> s1 \<and> s2) 0 e0
       else dec_fix (n < 0) (nat \<bar>n\<bar>) e0)"
    by (simp add: Let_def e0_def n_def)
  show ?thesis
  proof (cases "n = 0")
    case True
    have "int 0 * 10 ^ nat (e0 + int k) < 10 ^ prec" by simp
    from dec_fix_exact[OF this lo k, of "c1 = 0 \<and> c2 = 0 \<and> s1 \<and> s2"]
    obtain e' where f: "dec_fix (c1 = 0 \<and> c2 = 0 \<and> s1 \<and> s2) 0 e0
          = Inr (Finite (c1 = 0 \<and> c2 = 0 \<and> s1 \<and> s2) 0 e')"
      and lo': "- int k \<le> e'" and same: "e0 \<le> 0 \<longrightarrow> e' = e0"
      by blast
    have v: "scaled (- int k) (c1 = 0 \<and> c2 = 0 \<and> s1 \<and> s2) 0 e' = n * P"
      using True by (simp add: scaled_def)
    show ?thesis
      using add True f lo' same v sum by (auto simp: e0_def)
  next
    case False
    have "int (nat \<bar>n\<bar>) * 10 ^ nat (e0 + int k) = \<bar>n * P\<bar>"
      by (simp add: P_def abs_mult)
    with b sum have "int (nat \<bar>n\<bar>) * 10 ^ nat (e0 + int k) < 10 ^ prec" by simp
    from dec_fix_exact[OF this lo k, of "n < 0"] False
    have f: "dec_fix (n < 0) (nat \<bar>n\<bar>) e0 = Inr (Finite (n < 0) (nat \<bar>n\<bar>) e0)"
      by auto
    have v: "scaled (- int k) (n < 0) (nat \<bar>n\<bar>) e0 = n * P"
      by (simp add: scaled_def P_def)
    have nz: "nat \<bar>n\<bar> \<noteq> 0" using False by simp
    show ?thesis
      using add False f lo v sum nz by (auto simp: e0_def)
  qed
qed

lemma scaled_neg: "scaled e0 (\<not> s) c e = - scaled e0 s c e"
  by (simp add: scaled_def)

lemma dec_abs_exact:
  assumes lo: "- int k \<le> e" and k: "k \<le> 1000000"
    and b: "\<bar>scaled (- int k) s c e\<bar> < 10 ^ prec"
  shows "\<exists>e'. dec_abs (Finite s c e) = Inr (Finite False c e') \<and> - int k \<le> e' \<and>
           scaled (- int k) False c e' = \<bar>scaled (- int k) s c e\<bar>"
proof -
  have "\<bar>scaled (- int k) s c e\<bar> = int c * 10 ^ nat (e + int k)"
    by (simp add: scaled_def abs_mult)
  with b have "int c * 10 ^ nat (e + int k) < 10 ^ prec" by simp
  from dec_fix_exact[OF this lo k, of False]
  obtain e' where f: "dec_fix False c e = Inr (Finite False c e')"
    and lo': "- int k \<le> e'" and same: "c \<noteq> 0 \<longrightarrow> e' = e"
    by blast
  have "scaled (- int k) False c e' = \<bar>scaled (- int k) s c e\<bar>"
    using same by (cases "c = 0") (simp_all add: scaled_def abs_mult)
  with f lo' show ?thesis by simp
qed

lemma dec_lt_exact:
  assumes e1: "- int k \<le> e1" and e2: "- int k \<le> e2"
  shows "dec_lt (Finite s1 c1 e1) (Finite s2 c2 e2) =
           Inr (scaled (- int k) s1 c1 e1 < scaled (- int k) s2 c2 e2)"
proof -
  define e0 where "e0 = min e1 e2"
  define P :: int where "P = 10 ^ nat (e0 + int k)"
  have lo: "- int k \<le> e0" using e1 e2 by (simp add: e0_def)
  have u1: "scaled (- int k) s1 c1 e1 = scaled e0 s1 c1 e1 * P"
    unfolding P_def by (rule scaled_units[OF lo]) (simp add: e0_def)
  have u2: "scaled (- int k) s2 c2 e2 = scaled e0 s2 c2 e2 * P"
    unfolding P_def by (rule scaled_units[OF lo]) (simp add: e0_def)
  have "0 < P" by (simp add: P_def)
  then have "(scaled e0 s1 c1 e1 * P < scaled e0 s2 c2 e2 * P)
      = (scaled e0 s1 c1 e1 < scaled e0 s2 c2 e2)"
    by (simp add: mult_less_cancel_right)
  then show ?thesis
    by (simp add: Let_def e0_def[symmetric] u1 u2)
qed

lemma exactE:
  assumes "exact k d"
  obtains s c e where "d = Finite s c e" "- int k \<le> e"
  using assms by (cases d) auto

lemma hundredth_units: "2 \<le> k \<Longrightarrow> scaled (- int k) False 1 (- 2) = 10 ^ (k - 2)"
proof -
  assume "2 \<le> k"
  then have "nat (- 2 + int k) = k - 2" by linarith
  then show ?thesis by (simp add: scaled_def)
qed

lemma saldo_pruefung_exact:
  assumes ex: "exact_amounts k [anfang, ende, summe]"
  shows "\<exists>res. saldo_pruefung anfang ende summe = Inr res \<and>
           pv_anfangssaldo res = anfang \<and> endsaldo_aus_dokument res = ende \<and>
           transaktionen_summe res = summe \<and>
           exact k (berechneter_endsaldo res) \<and>
           units k (berechneter_endsaldo res) = units k anfang + units k summe \<and>
           exact k (differenz res) \<and>
           units k (differenz res) = \<bar>units k ende - (units k anfang + units k summe)\<bar> \<and>
           validierung_ok res =
             (\<bar>units k ende - (units k anfang + units k summe)\<bar> < 10 ^ (k - 2))"
proof -
  from ex have k2: "2 \<le> k" and k: "k \<le> 1000000"
    and xa: "exact k anfang" and xe: "exact k ende" and xs: "exact k summe"
    and bound: "\<bar>units k anfang\<bar> + \<bar>units k ende\<bar> + \<bar>units k summe\<bar> < 10 ^ prec"
    by (simp_all add: exact_amounts_def)
  from xa obtain sa ca ea where a: "anfang = Finite sa ca ea" and la: "- int k \<le> ea"
    by (rule exactE)
  from xe obtain se ce ee where e: "ende = Finite se ce ee" and le: "- int k \<le> ee"
    by (rule exactE)
  from xs obtain ss cs es where s: "summe = Finite ss cs es" and ls: "- int k \<le> es"
    by (rule exactE)
  define ua where "ua = scaled (- int k) sa ca ea"
  define ue where "ue = scaled (- int k) se ce ee"
  define us where "us = scaled (- int k) ss cs es"
  have b: "\<bar>ua\<bar> + \<bar>ue\<bar> + \<bar>us\<bar> < 10 ^ prec"
    using bound by (simp add: a e s ua_def ue_def us_def)
  \<comment> \<open>berechneter_saldo = anfangssaldo + summe\<close>
  have "\<bar>ua + us\<bar> < 10 ^ prec" using b by linarith
  then have "\<bar>scaled (- int k) sa ca ea + scaled (- int k) ss cs es\<bar> < 10 ^ prec"
    by (simp add: ua_def us_def)
  from dec_add_exact[OF la ls k this]
  obtain sb cb eb where add: "dec_add anfang summe = Inr (Finite sb cb eb)"
    and lb: "- int k \<le> eb" and ub: "scaled (- int k) sb cb eb = ua + us"
    unfolding a s ua_def us_def by blast
  \<comment> \<open>berechneter_saldo - endsaldo\<close>
  have "\<bar>(ua + us) + (- ue)\<bar> < 10 ^ prec" using b by linarith
  then have "\<bar>scaled (- int k) sb cb eb + scaled (- int k) (\<not> se) ce ee\<bar> < 10 ^ prec"
    by (simp add: ub scaled_neg ue_def)
  from dec_add_exact[OF lb le k this]
  obtain sd cd ed where sub: "dec_sub (Finite sb cb eb) ende = Inr (Finite sd cd ed)"
    and ld: "- int k \<le> ed" and ud: "scaled (- int k) sd cd ed = ua + us - ue"
    unfolding e dec_sub_def copy_negate.simps ub scaled_neg ue_def by auto
  \<comment> \<open>abs\<close>
  have "\<bar>scaled (- int k) sd cd ed\<bar> < 10 ^ prec" using b ud by linarith
  from dec_abs_exact[OF ld k this]
  obtain ef where ab: "dec_abs (Finite sd cd ed) = Inr (Finite False cd ef)"
    and lf: "- int k \<le> ef" and uf: "scaled (- int k) False cd ef = \<bar>ua + us - ue\<bar>"
    unfolding ud by blast
  \<comment> \<open>differenz < Decimal('0.01')\<close>
  have l2: "- int k \<le> - 2" using k2 by simp
  have lt: "dec_lt (Finite False cd ef) (Finite False 1 (- 2)) =
      Inr (\<bar>ua + us - ue\<bar> < 10 ^ (k - 2))"
    unfolding dec_lt_exact[OF lf l2] uf hundredth_units[OF k2] by simp
  have sw: "\<bar>ue - (ua + us)\<bar> = \<bar>ua + us - ue\<bar>" by linarith
  show ?thesis
    unfolding saldo_pruefung_def add and_then_def sum.case sub ab lt
    using lb lf ub uf sw
    by (simp add: a e s ua_def ue_def us_def)
qed

lemma sum_abs_nonneg: "0 \<le> (\<Sum>d\<leftarrow>ds. \<bar>units k d\<bar>)"
  by (induction ds) auto

lemma summe_loop_exact:
  assumes k: "k \<le> 1000000"
  shows "list_all (exact k) ds \<Longrightarrow> map betrag ts = map Inr ds \<Longrightarrow>
     - int k \<le> ea \<Longrightarrow> ea \<le> 0 \<Longrightarrow> \<not> (sa \<and> ca = 0) \<Longrightarrow>
     \<bar>scaled (- int k) sa ca ea\<bar> + (\<Sum>d\<leftarrow>ds. \<bar>units k d\<bar>) < 10 ^ prec \<Longrightarrow>
     \<exists>s c. summe_loop betrag (Finite sa ca ea) ts
             = Inr (Finite s c (fold min (map expo ds) ea)) \<and>
           \<not> (s \<and> c = 0) \<and>
           scaled (- int k) s c (fold min (map expo ds) ea)
             = scaled (- int k) sa ca ea + (\<Sum>d\<leftarrow>ds. units k d)"
proof (induction ds arbitrary: ts sa ca ea)
  case Nil
  then show ?case by simp
next
  case (Cons d ds)
  from Cons.prems(2) obtain t ts' where ts: "ts = t # ts'"
    and bt: "betrag t = Inr d" and rest: "map betrag ts' = map Inr ds"
    by (cases ts) auto
  from Cons.prems(1) have xd: "exact k d" and xs: "list_all (exact k) ds" by simp_all
  from xd obtain s1 c1 e1 where d: "d = Finite s1 c1 e1" and l1: "- int k \<le> e1"
    by (rule exactE)
  define ua where "ua = scaled (- int k) sa ca ea"
  define ud where "ud = scaled (- int k) s1 c1 e1"
  define r where "r = (\<Sum>d\<leftarrow>ds. \<bar>units k d\<bar>)"
  have r0: "0 \<le> r" unfolding r_def by (rule sum_abs_nonneg)
  have b: "\<bar>ua\<bar> + (\<bar>ud\<bar> + r) < 10 ^ prec"
    using Cons.prems(6) by (simp add: d ua_def ud_def r_def)
  have "\<bar>ua + ud\<bar> < 10 ^ prec" using b r0 by linarith
  then have "\<bar>scaled (- int k) sa ca ea + scaled (- int k) s1 c1 e1\<bar> < 10 ^ prec"
    by (simp add: ua_def ud_def)
  from dec_add_exact[OF Cons.prems(3) l1 k this]
  obtain s c e where add: "dec_add (Finite sa ca ea) (Finite s1 c1 e1) = Inr (Finite s c e)"
    and le: "- int k \<le> e" and u: "scaled (- int k) s c e = ua + ud"
    and em: "min ea e1 \<le> 0 \<longrightarrow> e = min ea e1"
    and sg: "\<not> (sa \<and> ca = 0) \<longrightarrow> \<not> (s \<and> c = 0)"
    unfolding ua_def ud_def by blast
  have e: "e = min e1 ea" using em Cons.prems(4) by (simp add: min.commute)
  have e0: "e \<le> 0" using e Cons.prems(4) by simp
  have canon: "\<not> (s \<and> c = 0)" using sg Cons.prems(5) by blast
  have "\<bar>ua + ud\<bar> + r < 10 ^ prec" using b by linarith
  then have b': "\<bar>scaled (- int k) s c e\<bar> + (\<Sum>d\<leftarrow>ds. \<bar>units k d\<bar>) < 10 ^ prec"
    by (simp add: u r_def)
  from Cons.IH[OF xs rest le e0 canon b']
  obtain s' c' where loop: "summe_loop betrag (Finite s c e) ts'
        = Inr (Finite s' c' (fold min (map expo ds) e))"
    and canon': "\<not> (s' \<and> c' = 0)"
    and u': "scaled (- int k) s' c' (fold min (map expo ds) e)
        = scaled (- int k) s c e + (\<Sum>d\<leftarrow>ds. units k d)"
    by blast
  have f: "fold min (map expo (d # ds)) ea = fold min (map expo ds) e"
    by (simp add: d e)
  have step: "summe_loop betrag (Finite sa ca ea) ts = summe_loop betrag (Finite s c e) ts'"
    using add by (simp add: ts bt d and_then_def)
  have total: "scaled (- int k) s c e + (\<Sum>d\<leftarrow>ds. units k d)
      = scaled (- int k) sa ca ea + (\<Sum>x\<leftarrow>d # ds. units k x)"
    by (simp add: u ua_def ud_def d)
  show ?case
    unfolding f step using loop canon' u' total by auto
qed

lemma finite_determined:
  assumes "\<not> (s \<and> c = 0)" "\<not> (s' \<and> c' = 0)"
    and "scaled e0 s c e = scaled e0 s' c' e"
  shows "Finite s c e = Finite s' c' e"
proof -
  have P: "(0::int) < 10 ^ nat (e - e0)" by simp
  from assms(3) have "(if s then - 1 else 1) * int c * 10 ^ nat (e - e0)
      = (if s' then - 1 else 1) * int c' * 10 ^ nat (e - e0)"
    by (simp add: scaled_def)
  then have eq: "(if s then - 1 else 1) * int c = (if s' then - 1 else 1) * int c'"
    using P by simp
  show ?thesis
  proof (cases "s = s'")
    case True
    with eq show ?thesis by (simp split: if_splits)
  next
    case False
    with eq have "c = 0 \<and> c' = 0" by (auto split: if_splits)
    with False assms(1,2) show ?thesis by auto
  qed
qed

lemma abs_sum_units: "\<bar>\<Sum>d\<leftarrow>ds. units k d\<bar> \<le> (\<Sum>d\<leftarrow>ds. \<bar>units k d\<bar>)"
  by (induction ds) auto

lemma fold_min_lower:
  "list_all (exact k) ds \<Longrightarrow> - int k \<le> ea \<Longrightarrow> - int k \<le> fold min (map expo ds) ea"
proof (induction ds arbitrary: ea)
  case Nil
  then show ?case by simp
next
  case (Cons d ds)
  from Cons.prems(1) obtain s c e where d: "d = Finite s c e" and l: "- int k \<le> e"
    by (auto elim: exactE)
  from Cons.prems have "list_all (exact k) ds" by simp
  moreover have "- int k \<le> min e ea" using l Cons.prems(2) by simp
  ultimately have "- int k \<le> fold min (map expo ds) (min e ea)" by (rule Cons.IH)
  then show ?case by (simp add: d)
qed

lemma pruefung_exact:
  assumes ex: "exact_amounts k (opening # closing # es)"
    and rd: "map betrag ts = map Inr es"
  shows "\<exists>s c. summe_loop betrag (Finite False 0 0) ts
             = Inr (Finite s c (fold min (map expo es) 0)) \<and>
           \<not> (s \<and> c = 0) \<and>
           scaled (- int k) s c (fold min (map expo es) 0) = (\<Sum>d\<leftarrow>es. units k d) \<and>
           (\<exists>res. saldo_pruefung opening closing (Finite s c (fold min (map expo es) 0)) = Inr res \<and>
                  reconciles k opening closing es res)"
proof -
  define E where "E = fold min (map expo es) 0"
  define S where "S = (\<Sum>d\<leftarrow>es. units k d)"
  define A where "A = (\<Sum>d\<leftarrow>es. \<bar>units k d\<bar>)"
  from ex have k2: "2 \<le> k" and k: "k \<le> 1000000"
    and xo: "exact k opening" and xc: "exact k closing" and xs: "list_all (exact k) es"
    and bound: "\<bar>units k opening\<bar> + (\<bar>units k closing\<bar> + A) < 10 ^ prec"
    by (simp_all add: exact_amounts_def A_def)
  have SA: "\<bar>S\<bar> \<le> A" unfolding S_def A_def by (rule abs_sum_units)
  have k0: "- int k \<le> 0" by simp
  have "\<bar>scaled (- int k) False 0 0\<bar> + A < 10 ^ prec"
    using bound by (simp add: scaled_def)
  then have b0: "\<bar>scaled (- int k) False 0 0\<bar> + (\<Sum>d\<leftarrow>es. \<bar>units k d\<bar>) < 10 ^ prec"
    by (simp add: A_def)
  have c0: "\<not> (False \<and> (0::nat) = 0)" by simp
  from summe_loop_exact[OF k xs rd k0 order_refl c0 b0]
  obtain s c where loop: "summe_loop betrag (Finite False 0 0) ts = Inr (Finite s c E)"
    and canon: "\<not> (s \<and> c = 0)"
    and u: "scaled (- int k) s c E = S"
    unfolding E_def S_def by (auto simp: scaled_def)
  have lE: "- int k \<le> E" unfolding E_def by (rule fold_min_lower[OF xs k0])
  have xsum: "exact k (Finite s c E)" using lE by simp
  have "\<bar>units k opening\<bar> + (\<bar>units k closing\<bar> + \<bar>S\<bar>) < 10 ^ prec"
    using bound SA by linarith
  then have ex3: "exact_amounts k [opening, closing, Finite s c E]"
    using k2 k xo xc xsum by (simp add: exact_amounts_def u)
  from saldo_pruefung_exact[OF ex3]
  obtain res where r: "saldo_pruefung opening closing (Finite s c E) = Inr res"
    and f: "pv_anfangssaldo res = opening" "endsaldo_aus_dokument res = closing"
      "transaktionen_summe res = Finite s c E"
      "exact k (berechneter_endsaldo res)"
      "units k (berechneter_endsaldo res) = units k opening + units k (Finite s c E)"
      "exact k (differenz res)"
      "units k (differenz res)
         = \<bar>units k closing - (units k opening + units k (Finite s c E))\<bar>"
      "validierung_ok res
         = (\<bar>units k closing - (units k opening + units k (Finite s c E))\<bar> < 10 ^ (k - 2))"
    by blast
  have uS: "units k (Finite s c E) = S" using u by simp
  have "reconciles k opening closing es res"
    unfolding reconciles_def using f xsum u by (simp add: S_def)
  with loop canon u r show ?thesis unfolding E_def S_def by blast
qed

end
